theory Spec2Isabelle
  imports Main "HOL-Library.Word"
begin

unbundle bit_operations_syntax

section \<open>Constants of timssdr.c, timssdr.h and libusb.h\<close>

type_synonym byte = "8 word"

text \<open>A \<^verbatim>\<open>void*\<close> the library never dereferences (the contexts): its address, 0 for NULL.\<close>

type_synonym ctx = nat

definition TRANSFER_COUNT :: nat where
  "TRANSFER_COUNT = 4"

definition TRANSFER_BUFFER_SIZE :: int where
  "TRANSFER_BUFFER_SIZE = 262144"

definition DEVICE_BUFFER_SIZE :: int where
  "DEVICE_BUFFER_SIZE = 32768"

text \<open>From libusb.h: the direction bits of an endpoint address, the status of a
  completed transfer, the success code and the transfer flag the library sets.\<close>

definition LIBUSB_ENDPOINT_IN :: byte where
  "LIBUSB_ENDPOINT_IN = 0x80"

definition LIBUSB_ENDPOINT_OUT :: byte where
  "LIBUSB_ENDPOINT_OUT = 0x00"

definition LIBUSB_SUCCESS :: int where
  "LIBUSB_SUCCESS = 0"

definition LIBUSB_TRANSFER_COMPLETED :: int where
  "LIBUSB_TRANSFER_COMPLETED = 0"

definition LIBUSB_TRANSFER_FREE_BUFFER :: byte where
  "LIBUSB_TRANSFER_FREE_BUFFER = 2"

definition RX_ENDPOINT_ADDRESS :: byte where
  "RX_ENDPOINT_ADDRESS = LIBUSB_ENDPOINT_IN OR 1"

definition TX_ENDPOINT_ADDRESS :: byte where
  "TX_ENDPOINT_ADDRESS = LIBUSB_ENDPOINT_OUT OR 2"

text \<open>\<^verbatim>\<open>enum timssdr_error\<close>: the enumerators are the integers 0 to 12, and every
  public operation returns one of them as an \<^verbatim>\<open>int\<close>.\<close>

definition TIMSSDR_SUCCESS :: int where "TIMSSDR_SUCCESS = 0"
definition TIMSSDR_TRUE :: int where "TIMSSDR_TRUE = 1"
definition TIMSSDR_ERROR_INVALID_PARAM :: int where "TIMSSDR_ERROR_INVALID_PARAM = 2"
definition TIMSSDR_ERROR_NOT_FOUND :: int where "TIMSSDR_ERROR_NOT_FOUND = 3"
definition TIMSSDR_ERROR_LIBUSB :: int where "TIMSSDR_ERROR_LIBUSB = 4"
definition TIMSSDR_ERROR_NOT_LAST_DEVICE :: int where "TIMSSDR_ERROR_NOT_LAST_DEVICE = 5"
definition TIMSSDR_ERROR_NO_MEM :: int where "TIMSSDR_ERROR_NO_MEM = 6"
definition TIMSSDR_ERROR_THREAD :: int where "TIMSSDR_ERROR_THREAD = 7"
definition TIMSSDR_ERROR_BUSY :: int where "TIMSSDR_ERROR_BUSY = 8"
definition TIMSSDR_ERROR_OTHER :: int where "TIMSSDR_ERROR_OTHER = 9"
definition TIMSSDR_ERROR_STREAMING_THREAD_ERR :: int where
  "TIMSSDR_ERROR_STREAMING_THREAD_ERR = 10"
definition TIMSSDR_ERROR_STREAMING_STOPPED :: int where
  "TIMSSDR_ERROR_STREAMING_STOPPED = 11"
definition TIMSSDR_ERROR_STREAMING_EXIT_CALLED :: int where
  "TIMSSDR_ERROR_STREAMING_EXIT_CALLED = 12"

section \<open>Data model\<close>

text \<open>The two completion handlers the library registers with the transport.\<close>

datatype libusb_transfer_cb_fn = Transfer_callback | Flush_callback

text \<open>\<^verbatim>\<open>struct libusb_transfer\<close>, the fields the library reads or writes. The buffer
  pointer is modelled by the bytes behind it (\<open>None\<close> for NULL), indexed from 0.\<close>

record libusb_transfer =
  xfer_flags :: byte
  xfer_endpoint :: byte
  xfer_status :: int
  xfer_length :: int
  xfer_actual_length :: int
  xfer_callback :: "libusb_transfer_cb_fn option"
  xfer_buffer :: "(nat \<Rightarrow> byte) option"

text \<open>\<^verbatim>\<open>timssdr_transfer\<close>, the descriptor handed to the application callbacks. Its
  pointer back to the device is left out: the device record is opaque to the
  application.\<close>

record timssdr_transfer =
  buffer :: "(nat \<Rightarrow> byte) option"
  buffer_length :: int
  valid_length :: int
  transfer_rx_ctx :: ctx
  transfer_tx_ctx :: ctx

text \<open>The application callbacks run on the application's own state \<open>'a\<close>. A
  sample-block callback returns its \<^verbatim>\<open>int\<close> and leaves the descriptor (the bytes
  it wrote through the buffer pointer, the \<open>valid_length\<close> it set) and its state
  changed. The second argument of the other two is the C \<^verbatim>\<open>int\<close> of the success flag.\<close>

type_synonym 'a timssdr_sample_block_cb_fn =
  "timssdr_transfer \<Rightarrow> 'a \<Rightarrow> int \<times> timssdr_transfer \<times> 'a"

type_synonym 'a timssdr_tx_block_complete_cb_fn =
  "timssdr_transfer \<Rightarrow> int \<Rightarrow> 'a \<Rightarrow> timssdr_transfer \<times> 'a"

type_synonym 'a timssdr_flush_cb_fn = "ctx \<Rightarrow> int \<Rightarrow> 'a \<Rightarrow> 'a"

text \<open>\<^verbatim>\<open>struct timssdr_device\<close>. The array \<open>transfers\<close> has TRANSFER_COUNT entries
  (the indices below TRANSFER_COUNT of the function), each owning its
  TRANSFER_BUFFER_SIZE bytes of the device's sample buffer. The flags are C
  \<^verbatim>\<open>bool\<close>s that only ever hold \<^verbatim>\<open>true\<close> or \<^verbatim>\<open>false\<close>; \<open>usb_device\<close> says whether the
  handle is not NULL. The thread handle, the lock and the condition variable have no
  value of their own: what is done with them is recorded in the trace.\<close>

record 'a timssdr_device =
  usb_device :: bool
  transfers :: "(nat \<Rightarrow> libusb_transfer) option"
  callback :: "'a timssdr_sample_block_cb_fn option"
  transfer_thread_started :: bool
  streaming :: bool
  rx_ctx :: ctx
  tx_ctx :: ctx
  do_exit :: bool
  transfers_setup :: bool
  active_transfers :: int
  flush :: bool
  flush_transfer :: "libusb_transfer option"
  flush_callback :: "'a timssdr_flush_cb_fn option"
  tx_completion_callback :: "'a timssdr_tx_block_complete_cb_fn option"
  flush_ctx :: ctx

section \<open>Status query and error names\<close>

definition timssdr_is_streaming :: "'a timssdr_device \<Rightarrow> int" where
  "timssdr_is_streaming device =
     (if transfer_thread_started device = True \<and> streaming device = True \<and>
         do_exit device = False
      then TIMSSDR_TRUE
      else if transfer_thread_started device = False
        then TIMSSDR_ERROR_STREAMING_THREAD_ERR
      else if streaming device = False
        then TIMSSDR_ERROR_STREAMING_STOPPED
      else TIMSSDR_ERROR_STREAMING_EXIT_CALLED)"

text \<open>\<^verbatim>\<open>timssdr_error_name\<close> returns a \<^verbatim>\<open>const char*\<close>: \<open>None\<close> is NULL. Three things
  come from outside the file: \<open>api\<close> says whether the build has
  \<^verbatim>\<open>LIBUSB_API_VERSION >= 0x01000103\<close>, \<open>libusb_strerror\<close> is the transport library's
  function of that name, and \<open>last_libusb_error\<close> is the global of that name.\<close>

definition timssdr_error_name ::
  "bool \<Rightarrow> (int \<Rightarrow> string option) \<Rightarrow> int \<Rightarrow> int \<Rightarrow> string option" where
  "timssdr_error_name api libusb_strerror last_libusb_error errcode =
     (if errcode = TIMSSDR_SUCCESS then Some ''TIMSSDR_SUCCESS''
      else if errcode = TIMSSDR_TRUE then Some ''TIMSSDR_TRUE''
      else if errcode = TIMSSDR_ERROR_INVALID_PARAM then Some ''invalid parameter(s)''
      else if errcode = TIMSSDR_ERROR_NOT_FOUND then Some ''TimsSDR not found''
      else if errcode = TIMSSDR_ERROR_BUSY then Some ''TimsSDR busy''
      else if errcode = TIMSSDR_ERROR_NO_MEM then Some ''insufficient memory''
      else if errcode = TIMSSDR_ERROR_LIBUSB then
        (if api \<and> last_libusb_error \<noteq> LIBUSB_SUCCESS
         then libusb_strerror last_libusb_error
         else Some ''USB error'')
      else if errcode = TIMSSDR_ERROR_THREAD then Some ''transfer thread error''
      else if errcode = TIMSSDR_ERROR_STREAMING_THREAD_ERR
        then Some ''streaming thread encountered an error''
      else if errcode = TIMSSDR_ERROR_STREAMING_STOPPED then Some ''streaming stopped''
      else if errcode = TIMSSDR_ERROR_STREAMING_EXIT_CALLED
        then Some ''streaming terminated''
      else if errcode = TIMSSDR_ERROR_NOT_LAST_DEVICE
        then Some ''one or more TimsSDRs still in use''
      else if errcode = TIMSSDR_ERROR_OTHER then Some ''unspecified error''
      else Some ''unknown error code'')"

section \<open>The world around the device\<close>

text \<open>What the library does to the outside is recorded in a trace, in the order of the
  calls: the lock and the condition variable of the device, the calls into the
  transport (with the transfer as it is handed over) and the calls of the
  application's callbacks (with the arguments they receive; for the sample-block
  callback also its return value and the descriptor as it leaves it).\<close>

datatype event =
    Pthread_mutex_lock
  | Pthread_mutex_unlock
  | Pthread_cond_wait
  | Pthread_cond_broadcast
  | Libusb_submit_transfer libusb_transfer
  | Libusb_cancel_transfer libusb_transfer
  | Libusb_alloc_transfer
  | Libusb_free_transfer
  | Call_callback timssdr_transfer int timssdr_transfer
  | Call_tx_completion_callback timssdr_transfer int
  | Call_flush_callback ctx int

text \<open>The world holds the application's state, the trace, the globals of timssdr.c
  and the answers of the outside: \<open>results n\<close> is what the \<open>n\<close>-th call into
  libusb, libc or pthreads whose result the library reads will return (a status
  code, a pointer where 0 is NULL, or a value the call stores for the library),
  \<open>calls\<close> counts them.\<close>

record 'a world =
  app :: 'a
  trace :: "event list"
  results :: "nat \<Rightarrow> int"
  calls :: nat
  open_devices :: "16 word"
  g_libusb_context :: bool
  last_libusb_error :: int

text \<open>A call does not return when it dereferences NULL or writes outside its buffer
  (\<open>Crash\<close>), or when it waits for a completion that never comes (\<open>Blocked\<close>).\<close>

datatype failure = Crash | Blocked

definition emit :: "event \<Rightarrow> 'a world \<Rightarrow> 'a world" where
  "emit e w = w\<lparr>trace := trace w @ [e]\<rparr>"

definition external_call :: "'a world \<Rightarrow> int \<times> 'a world" where
  "external_call w = (results w (calls w), w\<lparr>calls := Suc (calls w)\<rparr>)"

definition libusb_submit_transfer :: "libusb_transfer \<Rightarrow> 'a world \<Rightarrow> int \<times> 'a world" where
  "libusb_submit_transfer transfer w = external_call (emit (Libusb_submit_transfer transfer) w)"

text \<open>Readings of a trace: the calls of the sample-block callback, the descriptors
  of the calls that returned 0 with \<open>valid_length > 0\<close> (as the callback left them),
  and the transfers handed to \<^verbatim>\<open>libusb_submit_transfer\<close>, each in the order of the
  trace.\<close>

definition callback_calls :: "event list \<Rightarrow> timssdr_transfer list" where
  "callback_calls es =
     concat (map (\<lambda>e. case e of Call_callback tr r tr' \<Rightarrow> [tr] | _ \<Rightarrow> []) es)"

definition accepted_fills :: "event list \<Rightarrow> timssdr_transfer list" where
  "accepted_fills es =
     concat (map (\<lambda>e. case e of
                         Call_callback tr r tr' \<Rightarrow>
                           (if r = 0 \<and> valid_length tr' > 0 then [tr'] else [])
                       | _ \<Rightarrow> []) es)"

definition submitted :: "event list \<Rightarrow> libusb_transfer list" where
  "submitted es =
     concat (map (\<lambda>e. case e of Libusb_submit_transfer t \<Rightarrow> [t] | _ \<Rightarrow> []) es)"

text \<open>The events a call adds to the trace, from the world before and after it.\<close>

definition new_events :: "'a world \<Rightarrow> 'a world \<Rightarrow> event list" where
  "new_events w w' = drop (length (trace w)) (trace w')"

text \<open>The C \<^verbatim>\<open>int\<close> of a \<^verbatim>\<open>bool\<close>.\<close>

definition c_bool :: "bool \<Rightarrow> int" where
  "c_bool b = (if b then 1 else 0)"

section \<open>Padding a TX transfer\<close>

text \<open>The loop \<^verbatim>\<open>while (transfer->length % 512 != 0) transfer->buffer[transfer->length++] = 0;\<close>
  stands twice in the source, in \<^verbatim>\<open>timssdr_libusb_transfer_callback\<close> and in
  \<^verbatim>\<open>prepare_transfers\<close>, both times on a slot of the ring, whose buffer is
  TRANSFER_BUFFER_SIZE bytes. (C's \<^verbatim>\<open>%\<close> truncates, but it is 0 exactly when \<open>mod\<close>
  is.) A write at a negative index or at TRANSFER_BUFFER_SIZE or beyond leaves the
  slot's bytes: the model stops there with \<open>Crash\<close>.\<close>

function pad_buffer :: "(nat \<Rightarrow> byte) \<Rightarrow> int \<Rightarrow> failure + (nat \<Rightarrow> byte) \<times> int" where
  "pad_buffer buf len =
     (if len mod 512 \<noteq> 0 then
        (if 0 \<le> len \<and> len < TRANSFER_BUFFER_SIZE
         then pad_buffer (buf(nat len := 0)) (len + 1)
         else Inl Crash)
      else Inr (buf, len))"
  by pat_completeness auto
termination
  by (relation "measure (\<lambda>(buf, len). nat (TRANSFER_BUFFER_SIZE - len))") auto

definition pad_transfer :: "libusb_transfer \<Rightarrow> failure + libusb_transfer" where
  "pad_transfer transfer =
     (case xfer_buffer transfer of
        None \<Rightarrow> (if xfer_length transfer mod 512 \<noteq> 0 then Inl Crash else Inr transfer)
      | Some buf \<Rightarrow>
          (case pad_buffer buf (xfer_length transfer) of
             Inl f \<Rightarrow> Inl f
           | Inr (buf', len') \<Rightarrow>
               Inr (transfer\<lparr>xfer_length := len', xfer_buffer := Some buf'\<rparr>)))"

text \<open>The claim about the padding, in the spec's words: the length is "rounded up to
  the nearest multiple of 512", and \<open>padded tr t\<close> says that the transfer \<open>t\<close> has the
  rounded \<open>valid_length\<close> of the descriptor \<open>tr\<close> as its length and zero bytes from
  \<open>valid_length\<close> up to that length.\<close>

definition round_up_512 :: "int \<Rightarrow> int" where
  "round_up_512 n = ((n + 511) div 512) * 512"

definition padded :: "timssdr_transfer \<Rightarrow> libusb_transfer \<Rightarrow> bool" where
  "padded tr t =
     (xfer_length t = round_up_512 (valid_length tr) \<and>
      (case xfer_buffer t of
         None \<Rightarrow> False
       | Some buf \<Rightarrow> \<forall>i \<in> {nat (valid_length tr) ..< nat (xfer_length t)}. buf i = 0))"

text \<open>The transfers of the ring among the submitted ones are those whose completion
  handler is \<^verbatim>\<open>timssdr_libusb_transfer_callback\<close>. \<open>tx_padded es\<close> says of the events
  \<open>es\<close> of a call in a TX session: the \<open>k\<close>-th transfer of the ring it hands to
  the transport is the \<open>k\<close>-th block the application filled, padded.\<close>

definition ring_submitted :: "event list \<Rightarrow> libusb_transfer list" where
  "ring_submitted es =
     filter (\<lambda>t. xfer_callback t = Some Transfer_callback) (submitted es)"

definition tx_padded :: "event list \<Rightarrow> bool" where
  "tx_padded es =
     (length (ring_submitted es) \<le> length (accepted_fills es) \<and>
      list_all2 padded
        (take (length (ring_submitted es)) (accepted_fills es)) (ring_submitted es))"

text \<open>The transfer a slot of the ring is when it is submitted on the TX endpoint.\<close>

definition pad_of :: "libusb_transfer_cb_fn \<Rightarrow> libusb_transfer \<Rightarrow> libusb_transfer" where
  "pad_of cb t =
     t\<lparr>xfer_endpoint := TX_ENDPOINT_ADDRESS, xfer_callback := Some cb,
       xfer_length := round_up_512 (xfer_length t),
       xfer_buffer := Some (\<lambda>i. if xfer_length t \<le> int i \<and> int i < round_up_512 (xfer_length t)
                                  then 0 else the (xfer_buffer t) i)\<rparr>"

section \<open>Completion handlers\<close>

definition timssdr_libusb_flush_callback ::
  "libusb_transfer \<Rightarrow> 'a timssdr_device \<Rightarrow> 'a world \<Rightarrow> 'a timssdr_device \<times> 'a world" where
  "timssdr_libusb_flush_callback usb_transfer device w =
     (let success = c_bool (xfer_status usb_transfer = LIBUSB_TRANSFER_COMPLETED);
          w = emit Pthread_mutex_lock w;
          device = device\<lparr>flush := False\<rparr>;
          device = device\<lparr>active_transfers := 0\<rparr>;
          w = emit Pthread_cond_broadcast w;
          w = emit Pthread_mutex_unlock w
      in case flush_callback device of
           None \<Rightarrow> (device, w)
         | Some f \<Rightarrow>
             (device,
              (emit (Call_flush_callback (flush_ctx device) success) w)
                \<lparr>app := f (flush_ctx device) success (app w)\<rparr>))"

text \<open>The end of \<^verbatim>\<open>timssdr_libusb_transfer_callback\<close>, from the test
  \<^verbatim>\<open>if (!resubmit || result != LIBUSB_SUCCESS)\<close> to the release of the lock.
  \<open>resubmitted\<close> is the negation of that test: \<open>result\<close> is read only when
  \<open>resubmit\<close> is set, and then the submission has assigned it.\<close>

definition finish_transfer ::
  "bool \<Rightarrow> 'a timssdr_device \<Rightarrow> 'a world \<Rightarrow> 'a timssdr_device \<times> 'a world" where
  "finish_transfer resubmitted device w =
     (let (device, w) =
        (if \<not> resubmitted then
           (let device = device\<lparr>streaming := False\<rparr> in
            if active_transfers device = 1 then
              (if \<not> flush device
               then (device\<lparr>active_transfers := 0\<rparr>, emit Pthread_cond_broadcast w)
               else (device, w))
            else (device\<lparr>active_transfers := active_transfers device - 1\<rparr>, w))
         else (device, w))
      in (device, emit Pthread_mutex_unlock w))"

text \<open>The branch \<^verbatim>\<open>else if (device->flush)\<close> of the handler, followed by its end.\<close>

definition submit_flush ::
  "'a timssdr_device \<Rightarrow> 'a world \<Rightarrow> failure + 'a timssdr_device \<times> 'a world" where
  "submit_flush device w =
     (if flush device then
        (case flush_transfer device of
           None \<Rightarrow> Inl Crash
         | Some ft \<Rightarrow>
             (let (result, w) = libusb_submit_transfer ft w;
                  device = (if result \<noteq> LIBUSB_SUCCESS
                            then device\<lparr>streaming := False, flush := False\<rparr>
                            else device)
              in Inr (finish_transfer False device w)))
      else Inr (finish_transfer False device w))"

text \<open>\<open>usb_transfer\<close> is the slot's transfer as the transport hands it back (status and
  actual length set); the handler returns it as it leaves it. After a callback, the
  bytes of the descriptor are the bytes of the slot's buffer.\<close>

definition timssdr_libusb_transfer_callback ::
  "libusb_transfer \<Rightarrow> 'a timssdr_device \<Rightarrow> 'a world \<Rightarrow>
   failure + libusb_transfer \<times> 'a timssdr_device \<times> 'a world" where
  "timssdr_libusb_transfer_callback usb_transfer device w =
     (let transfer = \<lparr>buffer = xfer_buffer usb_transfer,
                      buffer_length = TRANSFER_BUFFER_SIZE,
                      valid_length = xfer_actual_length usb_transfer,
                      transfer_rx_ctx = rx_ctx device,
                      transfer_tx_ctx = tx_ctx device\<rparr>;
          success = (xfer_status usb_transfer = LIBUSB_TRANSFER_COMPLETED);
          (transfer, w) =
            (case tx_completion_callback device of
               None \<Rightarrow> (transfer, w)
             | Some f \<Rightarrow>
                 (let (transfer', a) = f transfer (c_bool success) (app w)
                  in (transfer',
                      (emit (Call_tx_completion_callback transfer (c_bool success)) w)
                        \<lparr>app := a\<rparr>)));
          usb_transfer = usb_transfer\<lparr>xfer_buffer := buffer transfer\<rparr>;
          w = emit Pthread_mutex_lock w
      in
      if success then
        (if streaming device then
           (case callback device of
              None \<Rightarrow> Inl Crash
            | Some cb \<Rightarrow>
                (let (r, transfer', a) = cb transfer (app w);
                     w = (emit (Call_callback transfer r transfer') w)\<lparr>app := a\<rparr>;
                     usb_transfer = usb_transfer\<lparr>xfer_buffer := buffer transfer'\<rparr>
                 in
                 if r = 0 \<and> valid_length transfer' > 0 then
                   (if transfers_setup device then
                      (case (if xfer_endpoint usb_transfer = TX_ENDPOINT_ADDRESS
                             then pad_transfer
                                    (usb_transfer\<lparr>xfer_length := valid_length transfer'\<rparr>)
                             else Inr usb_transfer) of
                         Inl f \<Rightarrow> Inl f
                       | Inr usb_transfer \<Rightarrow>
                           (let (result, w) = libusb_submit_transfer usb_transfer w
                            in Inr (usb_transfer,
                                    finish_transfer (result = LIBUSB_SUCCESS) device w)))
                    else Inr (usb_transfer, finish_transfer False device w))
                 else
                   (case submit_flush device w of
                      Inl f \<Rightarrow> Inl f
                    | Inr dw \<Rightarrow> Inr (usb_transfer, dw))))
         else
           (case submit_flush device w of
              Inl f \<Rightarrow> Inl f
            | Inr dw \<Rightarrow> Inr (usb_transfer, dw)))
      else
        Inr (usb_transfer,
             finish_transfer False (device\<lparr>streaming := False, flush := False\<rparr>) w))"

section \<open>Starting a session\<close>

text \<open>The TX loop of \<^verbatim>\<open>prepare_transfers\<close> that has the application fill the slots.
  The first argument counts the iterations left, TRANSFER_COUNT - transfer_index.
  \<^verbatim>\<open>ready_transfers\<close> and \<^verbatim>\<open>transfer_index\<close> start at 0 and are incremented together,
  so the index at which the loop ends is the value of \<^verbatim>\<open>ready_transfers\<close>, the
  third component of the result.\<close>

fun fill_transfers ::
  "nat \<Rightarrow> nat \<Rightarrow> 'a timssdr_device \<Rightarrow> (nat \<Rightarrow> libusb_transfer) \<Rightarrow> 'a world \<Rightarrow>
   failure + (nat \<Rightarrow> libusb_transfer) \<times> 'a world \<times> nat" where
  "fill_transfers 0 transfer_index device ts w = Inr (ts, w, transfer_index)"
| "fill_transfers (Suc n) transfer_index device ts w =
     (let transfer = \<lparr>buffer = xfer_buffer (ts transfer_index),
                      buffer_length = TRANSFER_BUFFER_SIZE,
                      valid_length = TRANSFER_BUFFER_SIZE,
                      transfer_rx_ctx = rx_ctx device,
                      transfer_tx_ctx = tx_ctx device\<rparr>
      in case callback device of
           None \<Rightarrow> Inl Crash
         | Some cb \<Rightarrow>
             (let (r, transfer', a) = cb transfer (app w);
                  w = (emit (Call_callback transfer r transfer') w)\<lparr>app := a\<rparr>;
                  ts = ts(transfer_index :=
                         (ts transfer_index)\<lparr>xfer_buffer := buffer transfer'\<rparr>)
              in
              if r = 0 \<and> valid_length transfer' > 0
              then fill_transfers n (Suc transfer_index) device
                     (ts(transfer_index :=
                        (ts transfer_index)\<lparr>xfer_length := valid_length transfer'\<rparr>)) w
              else Inr (ts, w, transfer_index)))"

text \<open>The loop of \<^verbatim>\<open>prepare_transfers\<close> that submits the ready slots, under the lock.
  The first argument counts the iterations left, ready_transfers - transfer_index.
  The result carries the ring, \<^verbatim>\<open>active_transfers\<close>, the local \<^verbatim>\<open>error\<close> and the
  world.\<close>

fun submit_transfers ::
  "nat \<Rightarrow> nat \<Rightarrow> byte \<Rightarrow> libusb_transfer_cb_fn \<Rightarrow> (nat \<Rightarrow> libusb_transfer) \<Rightarrow> int \<Rightarrow> int \<Rightarrow>
   'a world \<Rightarrow> failure + (nat \<Rightarrow> libusb_transfer) \<times> int \<times> int \<times> 'a world" where
  "submit_transfers 0 transfer_index endpoint_address cb ts active error w =
     Inr (ts, active, error, w)"
| "submit_transfers (Suc n) transfer_index endpoint_address cb ts active error w =
     (let transfer = (ts transfer_index)
            \<lparr>xfer_endpoint := endpoint_address, xfer_callback := Some cb\<rparr>
      in case (if endpoint_address = TX_ENDPOINT_ADDRESS then pad_transfer transfer
               else Inr transfer) of
           Inl f \<Rightarrow> Inl f
         | Inr transfer \<Rightarrow>
             (let ts = ts(transfer_index := transfer);
                  (error, w) = libusb_submit_transfer transfer w
              in
              if error \<noteq> 0 then Inr (ts, active, error, w\<lparr>last_libusb_error := error\<rparr>)
              else submit_transfers n (Suc transfer_index) endpoint_address cb ts
                     (active + 1) error w))"

text \<open>The block of \<^verbatim>\<open>prepare_transfers\<close> guarded by the first \<^verbatim>\<open>if (error == 0)\<close>.\<close>

definition setup_streaming ::
  "nat \<Rightarrow> int \<Rightarrow> 'a timssdr_device \<Rightarrow> 'a world \<Rightarrow> failure + 'a timssdr_device \<times> int \<times> 'a world"
  where
  "setup_streaming ready_transfers error device w =
     (let device = device\<lparr>streaming := (ready_transfers = TRANSFER_COUNT)\<rparr>;
          device = device\<lparr>transfers_setup := True\<rparr>
      in
      if \<not> streaming device \<and> flush device then
        (case flush_transfer device of
           None \<Rightarrow> Inl Crash
         | Some ft \<Rightarrow>
             (let (error, w) = libusb_submit_transfer ft w
              in Inr (device, error,
                      if error \<noteq> 0 then w\<lparr>last_libusb_error := error\<rparr> else w)))
      else Inr (device, error, w))"

text \<open>\<^verbatim>\<open>prepare_transfers\<close>. The local \<^verbatim>\<open>int error;\<close> is declared without a value and is
  first assigned in the submit loop: the argument \<open>error\<close> is what it holds before.\<close>

definition prepare_transfers ::
  "'a timssdr_device \<Rightarrow> byte \<Rightarrow> libusb_transfer_cb_fn \<Rightarrow> int \<Rightarrow> 'a world \<Rightarrow>
   failure + int \<times> 'a timssdr_device \<times> 'a world" where
  "prepare_transfers device endpoint_address cb error w =
     (case transfers device of
        None \<Rightarrow> Inr (TIMSSDR_ERROR_OTHER, device, w)
      | Some ts \<Rightarrow>
          (case (if endpoint_address = TX_ENDPOINT_ADDRESS
                 then fill_transfers TRANSFER_COUNT 0 device ts w
                 else Inr (ts, w, TRANSFER_COUNT)) of
             Inl f \<Rightarrow> Inl f
           | Inr (ts, w, ready_transfers) \<Rightarrow>
               (case submit_transfers ready_transfers 0 endpoint_address cb ts
                       (active_transfers device) error (emit Pthread_mutex_lock w) of
                  Inl f \<Rightarrow> Inl f
                | Inr (ts, active, error, w) \<Rightarrow>
                    (let device = device\<lparr>transfers := Some ts, active_transfers := active\<rparr>
                     in case (if error = 0 then setup_streaming ready_transfers error device w
                              else Inr (device, error, w)) of
                          Inl f \<Rightarrow> Inl f
                        | Inr (device, error, w) \<Rightarrow>
                            Inr (if error = 0 then TIMSSDR_SUCCESS else TIMSSDR_ERROR_LIBUSB,
                                 device, emit Pthread_mutex_unlock w)))))"

definition prepare_setup_transfers ::
  "'a timssdr_device \<Rightarrow> byte \<Rightarrow> 'a timssdr_sample_block_cb_fn option \<Rightarrow> int \<Rightarrow> 'a world \<Rightarrow>
   failure + int \<times> 'a timssdr_device \<times> 'a world" where
  "prepare_setup_transfers device endpoint_address cb error w =
     (if transfers_setup device = True then Inr (TIMSSDR_ERROR_BUSY, device, w)
      else prepare_transfers (device\<lparr>callback := cb\<rparr>) endpoint_address
             Transfer_callback error w)"

definition timssdr_start_rx ::
  "'a timssdr_device \<Rightarrow> 'a timssdr_sample_block_cb_fn option \<Rightarrow> ctx \<Rightarrow> int \<Rightarrow> 'a world \<Rightarrow>
   failure + int \<times> 'a timssdr_device \<times> 'a world" where
  "timssdr_start_rx device cb ctx error w =
     (let device = device\<lparr>rx_ctx := ctx\<rparr>
      in prepare_setup_transfers device RX_ENDPOINT_ADDRESS cb error w)"

definition timssdr_start_tx ::
  "'a timssdr_device \<Rightarrow> 'a timssdr_sample_block_cb_fn option \<Rightarrow> ctx \<Rightarrow> int \<Rightarrow> 'a world \<Rightarrow>
   failure + int \<times> 'a timssdr_device \<times> 'a world" where
  "timssdr_start_tx device cb ctx error w =
     (let device = (if flush_transfer device \<noteq> None then device\<lparr>flush := True\<rparr>
                    else device);
          device = device\<lparr>tx_ctx := ctx\<rparr>
      in prepare_setup_transfers device TX_ENDPOINT_ADDRESS cb error w)"

definition timssdr_set_tx_block_complete_callback ::
  "'a timssdr_device \<Rightarrow> 'a timssdr_tx_block_complete_cb_fn option \<Rightarrow>
   int \<times> 'a timssdr_device" where
  "timssdr_set_tx_block_complete_callback device cb =
     (TIMSSDR_SUCCESS, device\<lparr>tx_completion_callback := cb\<rparr>)"

section \<open>Stopping a session\<close>

text \<open>While \<^verbatim>\<open>cancel_transfers\<close> waits on the condition variable, the transfer thread
  runs the completion handlers. A completion names the slot of the ring (or the flush
  transfer) with the status and the actual length the transport reports.\<close>

datatype completion = Transfer_completion nat int int | Flush_completion int int

definition handle_completion ::
  "completion \<Rightarrow> 'a timssdr_device \<Rightarrow> 'a world \<Rightarrow> failure + 'a timssdr_device \<times> 'a world" where
  "handle_completion c device w =
     (case c of
        Transfer_completion i st actual \<Rightarrow>
          (case transfers device of
             None \<Rightarrow> Inl Crash
           | Some ts \<Rightarrow>
               (case timssdr_libusb_transfer_callback
                       ((ts i)\<lparr>xfer_status := st, xfer_actual_length := actual\<rparr>) device w of
                  Inl f \<Rightarrow> Inl f
                | Inr (t, device, w) \<Rightarrow> Inr (device\<lparr>transfers := Some (ts(i := t))\<rparr>, w)))
      | Flush_completion st actual \<Rightarrow>
          (case flush_transfer device of
             None \<Rightarrow> Inl Crash
           | Some ft \<Rightarrow>
               (let ft = ft\<lparr>xfer_status := st, xfer_actual_length := actual\<rparr>;
                    (device, w) = timssdr_libusb_flush_callback ft device w
                in Inr (device\<lparr>flush_transfer := Some ft\<rparr>, w))))"

fun handle_completions ::
  "completion list \<Rightarrow> 'a timssdr_device \<Rightarrow> 'a world \<Rightarrow> failure + 'a timssdr_device \<times> 'a world"
  where
  "handle_completions [] device w = Inr (device, w)"
| "handle_completions (c # cs) device w =
     (case handle_completion c device w of
        Inl f \<Rightarrow> Inl f
      | Inr (device, w) \<Rightarrow> handle_completions cs device w)"

text \<open>The loop \<^verbatim>\<open>while (device->active_transfers > 0) pthread_cond_wait(...)\<close>. Each
  element of the first argument is what the transfer thread handles during one wait,
  before the waiting thread has the lock again and tests the counter (the empty list
  is a spurious wake-up). When nothing more completes, the wait never ends.\<close>

fun wait_all_finished ::
  "completion list list \<Rightarrow> 'a timssdr_device \<Rightarrow> 'a world \<Rightarrow>
   failure + 'a timssdr_device \<times> 'a world" where
  "wait_all_finished [] device w =
     (if active_transfers device > 0 then Inl Blocked else Inr (device, w))"
| "wait_all_finished (cs # css) device w =
     (if active_transfers device > 0 then
        (case handle_completions cs device (emit Pthread_cond_wait w) of
           Inl f \<Rightarrow> Inl f
         | Inr (device, w) \<Rightarrow> wait_all_finished css device w)
      else Inr (device, w))"

definition transfers_check_setup :: "'a timssdr_device \<Rightarrow> bool" where
  "transfers_check_setup device =
     (if transfers device \<noteq> None \<and> transfers_setup device = True then True else False)"

text \<open>The entries of the ring are never NULL while the device is open, so the loop
  of \<^verbatim>\<open>cancel_transfers\<close> cancels all TRANSFER_COUNT of them, in order.\<close>

definition cancel_transfers ::
  "completion list list \<Rightarrow> 'a timssdr_device \<Rightarrow> 'a world \<Rightarrow>
   failure + int \<times> 'a timssdr_device \<times> 'a world" where
  "cancel_transfers css device w =
     (let device = device\<lparr>streaming := False\<rparr>
      in
      if transfers_check_setup device = True then
        (let w = emit Pthread_mutex_lock w;
             w = (case transfers device of
                    None \<Rightarrow> w
                  | Some ts \<Rightarrow>
                      fold (\<lambda>transfer_index. emit (Libusb_cancel_transfer (ts transfer_index)))
                        [0..<TRANSFER_COUNT] w);
             w = (case flush_transfer device of
                    None \<Rightarrow> w
                  | Some ft \<Rightarrow> emit (Libusb_cancel_transfer ft) w);
             device = device\<lparr>transfers_setup := False\<rparr>;
             device = device\<lparr>flush := False\<rparr>
         in case wait_all_finished css device w of
              Inl f \<Rightarrow> Inl f
            | Inr (device, w) \<Rightarrow> Inr (TIMSSDR_SUCCESS, device, emit Pthread_mutex_unlock w))
      else Inr (TIMSSDR_ERROR_OTHER, device, w))"

definition timssdr_stop_rx ::
  "completion list list \<Rightarrow> 'a timssdr_device \<Rightarrow> 'a world \<Rightarrow>
   failure + int \<times> 'a timssdr_device \<times> 'a world" where
  "timssdr_stop_rx css device w = cancel_transfers css device w"

definition timssdr_stop_tx ::
  "completion list list \<Rightarrow> 'a timssdr_device \<Rightarrow> 'a world \<Rightarrow>
   failure + int \<times> 'a timssdr_device \<times> 'a world" where
  "timssdr_stop_tx css device w = cancel_transfers css device w"

text \<open>What a thread that waits in \<^verbatim>\<open>cancel_transfers\<close> needs from the transport, read
  off the completions themselves: with \<open>n\<close> transfers outstanding, a transfer of the
  ring completes only while \<open>n > 0\<close> and leaves \<open>n - 1\<close>, and the flush transfer (which
  exists only when \<open>has_flush\<close>) completes last and leaves none. \<open>outstanding_after\<close> is
  the number left after one batch of completions, \<open>None\<close> when a completion arrives
  that nothing outstanding accounts for. \<open>transport_drains\<close> says that the batches
  go on until nothing is outstanding.\<close>

fun outstanding_after :: "bool \<Rightarrow> int \<Rightarrow> completion list \<Rightarrow> int option" where
  "outstanding_after has_flush n [] = Some n"
| "outstanding_after has_flush n (Transfer_completion i st actual # cs) =
     (if 0 < n then outstanding_after has_flush (n - 1) cs else None)"
| "outstanding_after has_flush n (Flush_completion st actual # cs) =
     (if has_flush then outstanding_after has_flush 0 cs else None)"

fun transport_drains :: "bool \<Rightarrow> int \<Rightarrow> completion list list \<Rightarrow> bool" where
  "transport_drains has_flush n [] = (n = 0)"
| "transport_drains has_flush n (cs # css) =
     (if 0 < n then
        (case outstanding_after has_flush n cs of
           None \<Rightarrow> False
         | Some n' \<Rightarrow> transport_drains has_flush n' css)
      else n = 0)"

section \<open>The flush transfer\<close>

text \<open>\<^verbatim>\<open>libusb_alloc_transfer\<close> returns NULL or a transfer whose fields are all zero.\<close>

definition libusb_alloc_transfer :: "'a world \<Rightarrow> libusb_transfer option \<times> 'a world" where
  "libusb_alloc_transfer w =
     (let (p, w) = external_call (emit Libusb_alloc_transfer w)
      in (if p = 0 then None
          else Some \<lparr>xfer_flags = 0, xfer_endpoint = 0, xfer_status = 0, xfer_length = 0,
                     xfer_actual_length = 0, xfer_callback = None, xfer_buffer = None\<rparr>,
          w))"

text \<open>\<^verbatim>\<open>calloc(1, DEVICE_BUFFER_SIZE)\<close>: NULL, or bytes that are all zero.\<close>

definition calloc :: "'a world \<Rightarrow> (nat \<Rightarrow> byte) option \<times> 'a world" where
  "calloc w =
     (let (p, w) = external_call w
      in (if p = 0 then None else Some (\<lambda>i. 0), w))"

definition timssdr_enable_tx_flush ::
  "'a timssdr_device \<Rightarrow> 'a timssdr_flush_cb_fn option \<Rightarrow> ctx \<Rightarrow> 'a world \<Rightarrow>
   int \<times> 'a timssdr_device \<times> 'a world" where
  "timssdr_enable_tx_flush device cb ctx w =
     (let device = device\<lparr>flush_callback := cb\<rparr>;
          device = device\<lparr>flush_ctx := ctx\<rparr>
      in
      if flush_transfer device \<noteq> None then (TIMSSDR_SUCCESS, device, w)
      else
        (case libusb_alloc_transfer w of
           (None, w) \<Rightarrow> (TIMSSDR_ERROR_LIBUSB, device\<lparr>flush_transfer := None\<rparr>, w)
         | (Some ft, w) \<Rightarrow>
             (let (buf, w) = calloc w;
                  ft = ft\<lparr>xfer_endpoint := TX_ENDPOINT_ADDRESS, xfer_buffer := buf,
                          xfer_length := DEVICE_BUFFER_SIZE,
                          xfer_callback := Some Flush_callback\<rparr>;
                  ft = ft\<lparr>xfer_flags := LIBUSB_TRANSFER_FREE_BUFFER\<rparr>
              in (TIMSSDR_SUCCESS, device\<lparr>flush_transfer := Some ft\<rparr>, w))))"

definition timssdr_disable_tx_flush ::
  "'a timssdr_device \<Rightarrow> 'a world \<Rightarrow> int \<times> 'a timssdr_device \<times> 'a world" where
  "timssdr_disable_tx_flush device w =
     (TIMSSDR_SUCCESS,
      device\<lparr>flush_transfer := None, flush_callback := None, flush_ctx := 0\<rparr>,
      emit Libusb_free_transfer w)"

text \<open>A run of calls of \<open>timssdr_enable_tx_flush\<close> on one device, each with its own
  callback and context; the first component of the result lists the return values.
  \<open>allocations\<close> counts the calls of \<^verbatim>\<open>libusb_alloc_transfer\<close> in a trace.\<close>

fun enable_tx_flush_calls ::
  "('a timssdr_flush_cb_fn option \<times> ctx) list \<Rightarrow> 'a timssdr_device \<Rightarrow> 'a world \<Rightarrow>
   int list \<times> 'a timssdr_device \<times> 'a world" where
  "enable_tx_flush_calls [] device w = ([], device, w)"
| "enable_tx_flush_calls ((cb, c) # args) device w =
     (let (r, device, w) = timssdr_enable_tx_flush device cb c w;
          (rs, device, w) = enable_tx_flush_calls args device w
      in (r # rs, device, w))"

definition allocations :: "event list \<Rightarrow> nat" where
  "allocations es = length (filter (\<lambda>e. e = Libusb_alloc_transfer) es)"

section \<open>Library and device lifecycle\<close>

definition timssdr_init :: "'a world \<Rightarrow> int \<times> 'a world" where
  "timssdr_init w =
     (if g_libusb_context w then (TIMSSDR_SUCCESS, w)
      else
        (let (libusb_error, w) = external_call w
         in if libusb_error \<noteq> 0
            then (TIMSSDR_ERROR_LIBUSB, w\<lparr>last_libusb_error := libusb_error\<rparr>)
            else (TIMSSDR_SUCCESS, w\<lparr>g_libusb_context := True\<rparr>)))"

definition timssdr_exit :: "'a world \<Rightarrow> int \<times> 'a world" where
  "timssdr_exit w =
     (if open_devices w = 0 then (TIMSSDR_SUCCESS, w\<lparr>g_libusb_context := False\<rparr>)
      else (TIMSSDR_ERROR_NOT_LAST_DEVICE, w))"

text \<open>\<^verbatim>\<open>kill_transfer_thread\<close>: the external call is \<^verbatim>\<open>pthread_join\<close>.\<close>

definition kill_transfer_thread ::
  "completion list list \<Rightarrow> 'a timssdr_device \<Rightarrow> 'a world \<Rightarrow>
   failure + int \<times> 'a timssdr_device \<times> 'a world" where
  "kill_transfer_thread css device w =
     (if transfer_thread_started device \<noteq> False then
        (case cancel_transfers css device w of
           Inl f \<Rightarrow> Inl f
         | Inr (r, device, w) \<Rightarrow>
             (let device = device\<lparr>do_exit := True\<rparr>;
                  (result, w) = external_call w
              in
              if result \<noteq> 0 then Inr (TIMSSDR_ERROR_THREAD, device, w)
              else Inr (TIMSSDR_SUCCESS,
                        device\<lparr>transfer_thread_started := False, do_exit := False\<rparr>, w)))
      else Inr (TIMSSDR_SUCCESS, device\<lparr>do_exit := False\<rparr>, w))"

definition free_transfers :: "'a timssdr_device \<Rightarrow> 'a world \<Rightarrow> 'a timssdr_device \<times> 'a world" where
  "free_transfers device w =
     (let (device, w) =
        (case transfers device of
           None \<Rightarrow> (device, w)
         | Some ts \<Rightarrow>
             (device\<lparr>transfers := None\<rparr>,
              fold (\<lambda>transfer_index. emit Libusb_free_transfer) [0..<TRANSFER_COUNT] w))
      in (device, emit Libusb_free_transfer w))"

text \<open>\<^verbatim>\<open>timssdr_close\<close>: the argument is the device pointer, \<open>None\<close> for NULL. The device
  record is freed, so the result is the return value and the world.\<close>

definition timssdr_close ::
  "completion list list \<Rightarrow> 'a timssdr_device option \<Rightarrow> 'a world \<Rightarrow> failure + int \<times> 'a world"
  where
  "timssdr_close css device w =
     (let result1 = TIMSSDR_SUCCESS;
          result2 = TIMSSDR_SUCCESS
      in case (case device of
                 None \<Rightarrow> Inr (result2, w)
               | Some d \<Rightarrow>
                   (case kill_transfer_thread css d w of
                      Inl f \<Rightarrow> Inl f
                    | Inr (result2, d, w) \<Rightarrow>
                        (let d = d\<lparr>usb_device := False\<rparr>;
                             (d, w) = free_transfers d w
                         in Inr (result2, w)))) of
           Inl f \<Rightarrow> Inl f
         | Inr (result2, w) \<Rightarrow>
             (let w = w\<lparr>open_devices := open_devices w - 1\<rparr>
              in Inr (if result2 \<noteq> TIMSSDR_SUCCESS then result2 else result1, w)))"

section \<open>Opening a device\<close>

definition LIBUSB_ERROR_NOT_SUPPORTED :: int where
  "LIBUSB_ERROR_NOT_SUPPORTED = - 12"

definition USB_CONFIG_STANDARD :: int where
  "USB_CONFIG_STANDARD = 1"

text \<open>The loop of \<^verbatim>\<open>detach_kernel_drivers\<close> over the interfaces; the first argument
  counts the iterations left. The external calls are \<^verbatim>\<open>libusb_kernel_driver_active\<close>
  and \<^verbatim>\<open>libusb_detach_kernel_driver\<close>.\<close>

fun detach_interfaces :: "nat \<Rightarrow> 'a world \<Rightarrow> int \<times> 'a world" where
  "detach_interfaces 0 w = (TIMSSDR_SUCCESS, w)"
| "detach_interfaces (Suc n) w =
     (let (result, w) = external_call w
      in
      if result < 0 then
        (if result = LIBUSB_ERROR_NOT_SUPPORTED then (0, w)
         else (TIMSSDR_ERROR_LIBUSB, w\<lparr>last_libusb_error := result\<rparr>))
      else if result = 1 then
        (let (result, w) = external_call w
         in if result \<noteq> 0 then (TIMSSDR_ERROR_LIBUSB, w\<lparr>last_libusb_error := result\<rparr>)
            else detach_interfaces n w)
      else detach_interfaces n w)"

text \<open>\<^verbatim>\<open>detach_kernel_drivers\<close>: the external calls are
  \<^verbatim>\<open>libusb_get_active_config_descriptor\<close> and the read of \<^verbatim>\<open>bNumInterfaces\<close> from the
  descriptor it stores.\<close>

definition detach_kernel_drivers :: "'a world \<Rightarrow> int \<times> 'a world" where
  "detach_kernel_drivers w =
     (let (result, w) = external_call w
      in
      if result < 0 then (TIMSSDR_ERROR_LIBUSB, w\<lparr>last_libusb_error := result\<rparr>)
      else
        (let (num_interfaces, w) = external_call w
         in detach_interfaces (nat num_interfaces) w))"

text \<open>\<^verbatim>\<open>set_timssdr_configuration\<close>: the external calls are \<^verbatim>\<open>libusb_get_configuration\<close>,
  the read of the configuration it stores, and \<^verbatim>\<open>libusb_set_configuration\<close>. The inner
  \<open>Some r\<close> is an early \<^verbatim>\<open>return r\<close>.\<close>

definition set_timssdr_configuration :: "int \<Rightarrow> 'a world \<Rightarrow> int \<times> 'a world" where
  "set_timssdr_configuration config w =
     (let (result, w) = external_call w
      in
      if result \<noteq> 0 then (TIMSSDR_ERROR_LIBUSB, w\<lparr>last_libusb_error := result\<rparr>)
      else
        (let (curr_config, w) = external_call w
         in case (if curr_config \<noteq> config then
                    (let (result, w) = detach_kernel_drivers w
                     in
                     if result \<noteq> 0 then (Some result, w)
                     else
                       (let (result, w) = external_call w
                        in if result \<noteq> 0
                           then (Some TIMSSDR_ERROR_LIBUSB, w\<lparr>last_libusb_error := result\<rparr>)
                           else (None, w)))
                  else (None, w)) of
              (Some r, w) \<Rightarrow> (r, w)
            | (None, w) \<Rightarrow>
                (let (result, w) = detach_kernel_drivers w
                 in if result \<noteq> 0 then (result, w) else (LIBUSB_SUCCESS, w))))"

text \<open>The loop of \<^verbatim>\<open>allocate_transfers\<close>: each slot is a fresh transfer filled by
  \<^verbatim>\<open>libusb_fill_bulk_transfer\<close> with endpoint 0, the slot's bytes (zeroed by the
  \<^verbatim>\<open>memset\<close> before the loop), the length TRANSFER_BUFFER_SIZE and no callback. The
  slot's buffer points into the device record and is never NULL.\<close>

fun allocate_slots ::
  "nat \<Rightarrow> nat \<Rightarrow> (nat \<Rightarrow> libusb_transfer) \<Rightarrow> 'a world \<Rightarrow>
   int \<times> (nat \<Rightarrow> libusb_transfer) \<times> 'a world" where
  "allocate_slots 0 transfer_index ts w = (TIMSSDR_SUCCESS, ts, w)"
| "allocate_slots (Suc n) transfer_index ts w =
     (case libusb_alloc_transfer w of
        (None, w) \<Rightarrow> (TIMSSDR_ERROR_LIBUSB, ts, w)
      | (Some t, w) \<Rightarrow>
          allocate_slots n (Suc transfer_index)
            (ts(transfer_index :=
               t\<lparr>xfer_endpoint := 0, xfer_buffer := Some (\<lambda>i. 0),
                 xfer_length := TRANSFER_BUFFER_SIZE, xfer_callback := None\<rparr>)) w)"

text \<open>\<^verbatim>\<open>allocate_transfers\<close>: the external call is the \<^verbatim>\<open>calloc\<close> of the array, whose
  entries are NULL until the loop fills them; the model holds a zeroed transfer in
  their place, which nothing reads. When an allocation fails, the caller frees the
  device record.\<close>

definition allocate_transfers ::
  "'a timssdr_device \<Rightarrow> 'a world \<Rightarrow> int \<times> 'a timssdr_device \<times> 'a world" where
  "allocate_transfers device w =
     (if transfers device = None then
        (let (p, w) = external_call w
         in
         if p = 0 then (TIMSSDR_ERROR_NO_MEM, device, w)
         else
           (let (result, ts, w) =
              allocate_slots TRANSFER_COUNT 0
                (\<lambda>i. \<lparr>xfer_flags = 0, xfer_endpoint = 0, xfer_status = 0, xfer_length = 0,
                        xfer_actual_length = 0, xfer_callback = None, xfer_buffer = None\<rparr>) w
            in (result, device\<lparr>transfers := Some ts\<rparr>, w)))
      else (TIMSSDR_ERROR_BUSY, device, w))"

text \<open>\<^verbatim>\<open>create_transfer_thread\<close>: the external call is \<^verbatim>\<open>pthread_create\<close>.\<close>

definition create_transfer_thread ::
  "'a timssdr_device \<Rightarrow> 'a world \<Rightarrow> int \<times> 'a timssdr_device \<times> 'a world" where
  "create_transfer_thread device w =
     (if transfer_thread_started device = False then
        (let device = device\<lparr>streaming := False\<rparr>;
             device = device\<lparr>do_exit := False\<rparr>;
             (result, w) = external_call w
         in if result = 0
            then (TIMSSDR_SUCCESS, device\<lparr>transfer_thread_started := True\<rparr>, w)
            else (TIMSSDR_ERROR_THREAD, device, w))
      else (TIMSSDR_ERROR_BUSY, device, w))"

text \<open>\<^verbatim>\<open>timssdr_open_setup\<close>, for a USB handle that is not NULL. The external calls
  of its own are \<^verbatim>\<open>libusb_claim_interface\<close>, the \<^verbatim>\<open>calloc\<close> of the device record,
  \<^verbatim>\<open>pthread_mutex_init\<close> and \<^verbatim>\<open>pthread_cond_init\<close>. The second component is the pointer
  stored in \<^verbatim>\<open>*device\<close>, \<open>None\<close> when nothing is stored.\<close>

definition timssdr_open_setup :: "'a world \<Rightarrow> int \<times> 'a timssdr_device option \<times> 'a world" where
  "timssdr_open_setup w =
     (let (result, w) = set_timssdr_configuration USB_CONFIG_STANDARD w
      in
      if result \<noteq> LIBUSB_SUCCESS then (result, None, w)
      else
        (let (result, w) = external_call w
         in
         if result \<noteq> LIBUSB_SUCCESS
         then (TIMSSDR_ERROR_LIBUSB, None, w\<lparr>last_libusb_error := result\<rparr>)
         else
           (let (p, w) = external_call w
            in
            if p = 0 then (TIMSSDR_ERROR_NO_MEM, None, w)
            else
              (let lib_device =
                     \<lparr>usb_device = True, transfers = None, callback = None,
                      transfer_thread_started = False, streaming = False, rx_ctx = 0,
                      tx_ctx = 0, do_exit = False, transfers_setup = False,
                      active_transfers = 0, flush = False, flush_transfer = None,
                      flush_callback = None, tx_completion_callback = None,
                      flush_ctx = 0\<rparr>;
                   (result, w) = external_call w
               in
               if result \<noteq> 0 then (TIMSSDR_ERROR_THREAD, None, w)
               else
                 (let (result, w) = external_call w
                  in
                  if result \<noteq> 0 then (TIMSSDR_ERROR_THREAD, None, w)
                  else
                    (let (result, lib_device, w) = allocate_transfers lib_device w
                     in
                     if result \<noteq> 0 then (TIMSSDR_ERROR_NO_MEM, None, w)
                     else
                       (let (result, lib_device, w) = create_transfer_thread lib_device w
                        in
                        if result \<noteq> 0 then (result, None, w)
                        else (TIMSSDR_SUCCESS, Some lib_device,
                              w\<lparr>open_devices := open_devices w + 1\<rparr>))))))))"

text \<open>\<^verbatim>\<open>timssdr_open\<close>: \<open>device\<close> says whether the argument is not NULL; the external
  call is \<^verbatim>\<open>libusb_open_device_with_vid_pid\<close>.\<close>

definition timssdr_open :: "bool \<Rightarrow> 'a world \<Rightarrow> int \<times> 'a timssdr_device option \<times> 'a world" where
  "timssdr_open device w =
     (if \<not> device then (TIMSSDR_ERROR_INVALID_PARAM, None, w)
      else
        (let (usb_device, w) = external_call w
         in if usb_device = 0 then (TIMSSDR_ERROR_NOT_FOUND, None, w)
            else timssdr_open_setup w))"

section \<open>Example states\<close>

text \<open>A slot of the ring as \<^verbatim>\<open>allocate_transfers\<close> leaves it (a zeroed transfer filled
  by \<^verbatim>\<open>libusb_fill_bulk_transfer\<close> with endpoint 0, the slot's zeroed bytes, the
  length TRANSFER_BUFFER_SIZE and no callback), the device record as
  \<^verbatim>\<open>timssdr_open_setup\<close> leaves it, and a world in which nothing has happened yet and
  every call into the transport returns 0. The application state of the examples is a
  counter of the calls of its sample-block callback.\<close>

definition idle_transfer :: libusb_transfer where
  "idle_transfer =
     \<lparr>xfer_flags = 0, xfer_endpoint = 0, xfer_status = 0,
      xfer_length = TRANSFER_BUFFER_SIZE, xfer_actual_length = 0,
      xfer_callback = None, xfer_buffer = Some (\<lambda>i. 0)\<rparr>"

definition opened_device :: "nat timssdr_device" where
  "opened_device =
     \<lparr>usb_device = True, transfers = Some (\<lambda>i. idle_transfer), callback = None,
      transfer_thread_started = True, streaming = False, rx_ctx = 0, tx_ctx = 0,
      do_exit = False, transfers_setup = False, active_transfers = 0, flush = False,
      flush_transfer = None, flush_callback = None, tx_completion_callback = None,
      flush_ctx = 0\<rparr>"

definition initial_world :: "nat world" where
  "initial_world =
     \<lparr>app = 0, trace = [], results = (\<lambda>n. 0), calls = 0, open_devices = 0,
      g_libusb_context = False, last_libusb_error = 0\<rparr>"

text \<open>A world in which \<open>timssdr_open\<close> succeeds: the device is found and is in
  configuration 1, it has one interface with no kernel driver, every allocation
  returns a pointer and every other call returns 0.\<close>

definition opening_world :: "nat world" where
  "opening_world =
     initial_world\<lparr>results := (\<lambda>n. if n \<in> {0, 2, 4, 7, 10, 11, 12, 13, 14} then 1 else 0)\<rparr>"

text \<open>Sample-block callbacks: one that takes every block and asks for more, one that
  fills 510 bytes with the value 1 and asks for more, and one that refuses at once.\<close>

definition accept_block :: "nat timssdr_sample_block_cb_fn" where
  "accept_block tr a = (0, tr, Suc a)"

definition fill_510 :: "nat timssdr_sample_block_cb_fn" where
  "fill_510 tr a =
     (0, tr\<lparr>buffer := Some (\<lambda>i. if i < 510 then 1 else 7), valid_length := 510\<rparr>, Suc a)"

definition refuse_block :: "nat timssdr_sample_block_cb_fn" where
  "refuse_block tr a = (1, tr, Suc a)"

text \<open>The flush transfer as \<^verbatim>\<open>timssdr_enable_tx_flush\<close> builds it.\<close>

definition idle_flush_transfer :: libusb_transfer where
  "idle_flush_transfer =
     \<lparr>xfer_flags = LIBUSB_TRANSFER_FREE_BUFFER, xfer_endpoint = TX_ENDPOINT_ADDRESS,
      xfer_status = 0, xfer_length = DEVICE_BUFFER_SIZE, xfer_actual_length = 0,
      xfer_callback = Some Flush_callback, xfer_buffer = Some (\<lambda>i. 0)\<rparr>"

text \<open>Devices in a session: an RX session whose callback refuses its next block, on
  a device with a flush transfer; a device with a flush transfer and no session; and
  a TX session with flush armed and two transfers outstanding.\<close>

definition rx_session :: "nat timssdr_device" where
  "rx_session =
     opened_device\<lparr>callback := Some refuse_block, streaming := True, rx_ctx := 5,
       transfers_setup := True, active_transfers := 4,
       flush_transfer := Some idle_flush_transfer\<rparr>"

definition tx_flush_device :: "nat timssdr_device" where
  "tx_flush_device = opened_device\<lparr>flush_transfer := Some idle_flush_transfer\<rparr>"

definition tx_session :: "nat timssdr_device" where
  "tx_session =
     opened_device\<lparr>callback := Some fill_510, streaming := True,
       transfers_setup := True, active_transfers := 2, flush := True,
       flush_transfer := Some idle_flush_transfer\<rparr>"

text \<open>Worlds for a device with a flush transfer: the two allocations of
  \<open>timssdr_enable_tx_flush\<close> return a pointer; after them every call returns 0, or the
  first submission fails and every later call returns 0.\<close>

definition allocating_world :: "nat world" where
  "allocating_world = initial_world\<lparr>results := (\<lambda>n. if n < 2 then 1 else 0)\<rparr>"

definition failing_submit_world :: "nat world" where
  "failing_submit_world =
     initial_world\<lparr>results := (\<lambda>n. if n < 2 then 1 else if n = 2 then - 1 else 0)\<rparr>"

section \<open>Theorems\<close>

lemmas error_codes =
  TIMSSDR_SUCCESS_def TIMSSDR_TRUE_def TIMSSDR_ERROR_INVALID_PARAM_def
  TIMSSDR_ERROR_NOT_FOUND_def TIMSSDR_ERROR_LIBUSB_def TIMSSDR_ERROR_NOT_LAST_DEVICE_def
  TIMSSDR_ERROR_NO_MEM_def TIMSSDR_ERROR_THREAD_def TIMSSDR_ERROR_BUSY_def
  TIMSSDR_ERROR_OTHER_def TIMSSDR_ERROR_STREAMING_THREAD_ERR_def
  TIMSSDR_ERROR_STREAMING_STOPPED_def TIMSSDR_ERROR_STREAMING_EXIT_CALLED_def

lemmas libusb_codes =
  LIBUSB_SUCCESS_def LIBUSB_TRANSFER_COMPLETED_def LIBUSB_ENDPOINT_IN_def
  LIBUSB_ENDPOINT_OUT_def RX_ENDPOINT_ADDRESS_def TX_ENDPOINT_ADDRESS_def

subsection \<open>Projections of the basic operations\<close>

lemma emit_simps [simp]:
  "trace (emit e w) = trace w @ [e]"
  "app (emit e w) = app w"
  "results (emit e w) = results w"
  "calls (emit e w) = calls w"
  "open_devices (emit e w) = open_devices w"
  "g_libusb_context (emit e w) = g_libusb_context w"
  "last_libusb_error (emit e w) = last_libusb_error w"
  by (simp_all add: emit_def)

lemma callback_calls_simps [simp]:
  "callback_calls [] = []"
  "callback_calls (es @ es') = callback_calls es @ callback_calls es'"
  "callback_calls (Call_callback tr r tr' # es) = tr # callback_calls es"
  "callback_calls (Pthread_mutex_lock # es) = callback_calls es"
  "callback_calls (Pthread_mutex_unlock # es) = callback_calls es"
  "callback_calls (Pthread_cond_wait # es) = callback_calls es"
  "callback_calls (Pthread_cond_broadcast # es) = callback_calls es"
  "callback_calls (Libusb_submit_transfer t # es) = callback_calls es"
  "callback_calls (Libusb_cancel_transfer t # es) = callback_calls es"
  "callback_calls (Libusb_alloc_transfer # es) = callback_calls es"
  "callback_calls (Libusb_free_transfer # es) = callback_calls es"
  "callback_calls (Call_tx_completion_callback tr s # es) = callback_calls es"
  "callback_calls (Call_flush_callback c s # es) = callback_calls es"
  by (simp_all add: callback_calls_def)

lemma external_call_simps [simp]:
  "fst (external_call w) = results w (calls w)"
  "trace (snd (external_call w)) = trace w"
  "app (snd (external_call w)) = app w"
  "results (snd (external_call w)) = results w"
  "calls (snd (external_call w)) = Suc (calls w)"
  "open_devices (snd (external_call w)) = open_devices w"
  "g_libusb_context (snd (external_call w)) = g_libusb_context w"
  "last_libusb_error (snd (external_call w)) = last_libusb_error w"
  by (simp_all add: external_call_def)

lemma libusb_submit_transfer_simps [simp]:
  "fst (libusb_submit_transfer t w) = results w (calls w)"
  "trace (snd (libusb_submit_transfer t w)) = trace w @ [Libusb_submit_transfer t]"
  "app (snd (libusb_submit_transfer t w)) = app w"
  "results (snd (libusb_submit_transfer t w)) = results w"
  "calls (snd (libusb_submit_transfer t w)) = Suc (calls w)"
  "open_devices (snd (libusb_submit_transfer t w)) = open_devices w"
  "g_libusb_context (snd (libusb_submit_transfer t w)) = g_libusb_context w"
  "last_libusb_error (snd (libusb_submit_transfer t w)) = last_libusb_error w"
  by (simp_all add: libusb_submit_transfer_def)

lemma finish_transfer_simps [simp]:
  "trace (snd (finish_transfer b d w)) =
     trace w @ (if \<not> b \<and> active_transfers d = 1 \<and> \<not> flush d then [Pthread_cond_broadcast] else [])
       @ [Pthread_mutex_unlock]"
  "app (snd (finish_transfer b d w)) = app w"
  "results (snd (finish_transfer b d w)) = results w"
  "calls (snd (finish_transfer b d w)) = calls w"
  "flush (fst (finish_transfer b d w)) = flush d"
  "streaming (fst (finish_transfer b d w)) = (b \<and> streaming d)"
  "transfers_setup (fst (finish_transfer b d w)) = transfers_setup d"
  "transfers (fst (finish_transfer b d w)) = transfers d"
  "flush_transfer (fst (finish_transfer b d w)) = flush_transfer d"
  "active_transfers (fst (finish_transfer b d w)) =
     (if b then active_transfers d
      else if active_transfers d = 1 then (if flush d then 1 else 0)
      else active_transfers d - 1)"
  by (simp_all add: finish_transfer_def Let_def)

subsection \<open>The padding loop\<close>

declare pad_buffer.simps [simp del]

lemma div_512_up:
  fixes n :: int
  assumes "n mod 512 \<noteq> 0"
  shows "(n + 511) div 512 = n div 512 + 1"
proof -
  have r: "0 < n mod 512" "n mod 512 < 512"
    using assms pos_mod_sign [of 512 n] pos_mod_bound [of 512 n] by auto
  have "n + 511 = (n mod 512 - 1) + 512 * (n div 512 + 1)"
    using mult_div_mod_eq [of 512 n] by simp
  then have "(n + 511) div 512 = (n div 512 + 1) + (n mod 512 - 1) div 512"
    by (simp only: div_mult_self2)
  with r show ?thesis by simp
qed

lemma div_512_exact:
  fixes n :: int
  assumes "n mod 512 = 0"
  shows "(n + 511) div 512 = n div 512"
proof -
  have "n + 511 = 511 + 512 * (n div 512)"
    using mult_div_mod_eq [of 512 n] assms by simp
  then have "(n + 511) div 512 = n div 512 + 511 div 512"
    by (simp only: div_mult_self2)
  then show ?thesis by simp
qed

lemma round_up_512_char:
  "round_up_512 n = (if n mod 512 = 0 then n else n - n mod 512 + 512)"
  using minus_mod_eq_div_mult [of n 512]
  by (auto simp add: round_up_512_def div_512_up div_512_exact algebra_simps)

lemma round_up_512_step:
  "len mod 512 \<noteq> 0 \<Longrightarrow> round_up_512 (len + 1) = round_up_512 len"
proof -
  assume a: "len mod 512 \<noteq> 0"
  have "(len + 1 + 511) div 512 = len div 512 + 1"
    by (simp add: add.commute [of len])
  with a show ?thesis
    by (simp add: round_up_512_def div_512_up)
qed

lemma round_up_512_fixed:
  "len mod 512 = 0 \<Longrightarrow> round_up_512 len = len"
  by (simp add: round_up_512_char)

lemma round_up_512_bounds:
  "len \<le> round_up_512 len \<and> round_up_512 len < len + 512 \<and> round_up_512 len mod 512 = 0"
proof -
  have r: "0 \<le> len mod 512" "len mod 512 < 512"
    using pos_mod_sign [of 512 len] pos_mod_bound [of 512 len] by auto
  have "round_up_512 len mod 512 = 0"
    by (simp add: round_up_512_def)
  with r show ?thesis
    by (auto simp add: round_up_512_char)
qed

lemma pad_buffer_result:
  "0 \<le> len \<Longrightarrow> len \<le> TRANSFER_BUFFER_SIZE \<Longrightarrow>
   pad_buffer buf len =
     Inr (\<lambda>i. if len \<le> int i \<and> int i < round_up_512 len then 0 else buf i,
          round_up_512 len)"
proof (induction buf len rule: pad_buffer.induct)
  case (1 buf len)
  show ?case
  proof (cases "len mod 512 = 0")
    case True
    then show ?thesis
      by (subst pad_buffer.simps) (auto simp add: round_up_512_fixed fun_eq_iff)
  next
    case False
    have "TRANSFER_BUFFER_SIZE mod 512 = 0"
      by (simp add: TRANSFER_BUFFER_SIZE_def)
    with False "1.prems" have lt: "len < TRANSFER_BUFFER_SIZE"
      by (cases "len = TRANSFER_BUFFER_SIZE") auto
    have ih: "pad_buffer (buf(nat len := 0)) (len + 1) =
      Inr (\<lambda>i. if len + 1 \<le> int i \<and> int i < round_up_512 (len + 1) then 0
                else (buf(nat len := 0)) i, round_up_512 (len + 1))"
      by (rule "1.IH") (use False "1.prems" lt in auto)
    have up: "len < round_up_512 len"
      using round_up_512_bounds [of len] False
      by (cases "len = round_up_512 len") auto
    have feq: "(\<lambda>i. if len + 1 \<le> int i \<and> int i < round_up_512 len then 0
                else (buf(nat len := 0)) i) =
          (\<lambda>i. if len \<le> int i \<and> int i < round_up_512 len then 0 else buf i)"
      using "1.prems"(1) up by (auto simp add: fun_eq_iff)
    have "pad_buffer buf len = pad_buffer (buf(nat len := 0)) (len + 1)"
      using False "1.prems"(1) lt by (subst pad_buffer.simps) simp
    also note ih
    also have "round_up_512 (len + 1) = round_up_512 len"
      using False by (rule round_up_512_step)
    finally show ?thesis
      unfolding feq .
  qed
qed

lemma pad_transfer_result:
  assumes "xfer_buffer t \<noteq> None" "0 \<le> xfer_length t" "xfer_length t \<le> TRANSFER_BUFFER_SIZE"
  shows "pad_transfer t =
     Inr (t\<lparr>xfer_length := round_up_512 (xfer_length t),
            xfer_buffer := Some (\<lambda>i. if xfer_length t \<le> int i \<and> int i < round_up_512 (xfer_length t)
                                       then 0 else the (xfer_buffer t) i)\<rparr>)"
proof -
  from assms(1) obtain buf where "xfer_buffer t = Some buf"
    by auto
  with assms(2,3) show ?thesis
    by (simp add: pad_transfer_def pad_buffer_result cong: if_cong)
qed

lemma submit_flush_result:
  assumes "flush d \<longrightarrow> flush_transfer d = Some ft"
  shows "submit_flush d w =
     Inr (finish_transfer False
            (if flush d \<and> results w (calls w) \<noteq> LIBUSB_SUCCESS
             then d\<lparr>streaming := False, flush := False\<rparr> else d)
            (if flush d then snd (libusb_submit_transfer ft w) else w))"
  using assms by (simp add: submit_flush_def Let_def case_prod_beta)

subsection \<open>Status query\<close>

text \<open>C8: \<open>timssdr_is_streaming\<close> returns TIMSSDR_TRUE exactly when the transfer thread
  is started, streaming is set and do_exit is clear. Otherwise it returns
  TIMSSDR_ERROR_STREAMING_THREAD_ERR when the thread is not started, else
  TIMSSDR_ERROR_STREAMING_STOPPED when streaming is clear, else
  TIMSSDR_ERROR_STREAMING_EXIT_CALLED; the four codes are pairwise different, so
  exactly one of them is returned.\<close>

theorem timssdr_is_streaming_status:
  "(timssdr_is_streaming d = TIMSSDR_TRUE) =
     (transfer_thread_started d \<and> streaming d \<and> \<not> do_exit d) \<and>
   timssdr_is_streaming d =
     (if \<not> transfer_thread_started d then TIMSSDR_ERROR_STREAMING_THREAD_ERR
      else if \<not> streaming d then TIMSSDR_ERROR_STREAMING_STOPPED
      else if do_exit d then TIMSSDR_ERROR_STREAMING_EXIT_CALLED
      else TIMSSDR_TRUE) \<and>
   distinct [TIMSSDR_TRUE, TIMSSDR_ERROR_STREAMING_THREAD_ERR,
     TIMSSDR_ERROR_STREAMING_STOPPED, TIMSSDR_ERROR_STREAMING_EXIT_CALLED]"
  by (simp add: timssdr_is_streaming_def error_codes)

subsection \<open>Error names\<close>

text \<open>C10: \<open>timssdr_error_name\<close> is total. Given that the transport's
  \<open>libusb_strerror\<close> never returns NULL, it returns a string for every integer; every
  integer outside the enumeration (below 0 or above 12) yields "unknown error code";
  and for TIMSSDR_ERROR_LIBUSB the string is the transport's text of
  \<open>last_libusb_error\<close> when the build has the function and the value is not
  LIBUSB_SUCCESS, and "USB error" otherwise.\<close>

theorem timssdr_error_name_total:
  assumes "\<forall>e. libusb_strerror e \<noteq> None"
  shows "timssdr_error_name api libusb_strerror last_error errcode \<noteq> None \<and>
    (errcode < 0 \<or> 12 < errcode \<longrightarrow>
       timssdr_error_name api libusb_strerror last_error errcode =
         Some ''unknown error code'') \<and>
    timssdr_error_name api libusb_strerror last_error TIMSSDR_ERROR_LIBUSB =
      (if api \<and> last_error \<noteq> LIBUSB_SUCCESS then libusb_strerror last_error
       else Some ''USB error'')"
  using assms by (auto simp add: timssdr_error_name_def error_codes)

theorem timssdr_error_name_total_witness:
  "(\<forall>e. (\<lambda>e::int. Some ''Other error'') e \<noteq> None) \<and>
   timssdr_error_name True (\<lambda>e. Some ''Other error'') (- 99) 13 =
     Some ''unknown error code'' \<and>
   timssdr_error_name True (\<lambda>e. Some ''Other error'') (- 99) (- 1) =
     Some ''unknown error code'' \<and>
   timssdr_error_name True (\<lambda>e. Some ''Other error'') (- 99) TIMSSDR_ERROR_LIBUSB =
     Some ''Other error''"
  using timssdr_error_name_total [of "\<lambda>e. Some ''Other error''" True "- 99" 13]
    timssdr_error_name_total [of "\<lambda>e. Some ''Other error''" True "- 99" "- 1"]
  by (simp add: LIBUSB_SUCCESS_def)

subsection \<open>The flush completion handler\<close>

text \<open>C7: at every completion of the flush transfer the handler takes the lock,
  broadcasts the all-finished condition and releases the lock, in this order, and only
  then calls the application's flush callback (when one is installed) with
  \<open>flush_ctx\<close> and the success flag, which is 1 exactly when the status is
  LIBUSB_TRANSFER_COMPLETED and 0 otherwise. It leaves \<open>flush\<close> cleared and
  \<open>active_transfers\<close> at 0 and changes nothing else of the device; the callback acts
  on the application's state only.\<close>

theorem flush_callback_sequence:
  "fst (timssdr_libusb_flush_callback t d w) = d\<lparr>flush := False, active_transfers := 0\<rparr> \<and>
   trace (snd (timssdr_libusb_flush_callback t d w)) =
     trace w @ [Pthread_mutex_lock, Pthread_cond_broadcast, Pthread_mutex_unlock] @
       (case flush_callback d of
          None \<Rightarrow> []
        | Some f \<Rightarrow>
            [Call_flush_callback (flush_ctx d)
               (if xfer_status t = LIBUSB_TRANSFER_COMPLETED then 1 else 0)]) \<and>
   app (snd (timssdr_libusb_flush_callback t d w)) =
     (case flush_callback d of
        None \<Rightarrow> app w
      | Some f \<Rightarrow>
          f (flush_ctx d) (if xfer_status t = LIBUSB_TRANSFER_COMPLETED then 1 else 0) (app w))"
  by (simp add: timssdr_libusb_flush_callback_def Let_def c_bool_def split: option.splits)

subsection \<open>The completion handler of the ring\<close>

text \<open>C3: at every completion of a transfer of the ring, the handler calls the
  application's sample-block callback exactly once when the status is
  LIBUSB_TRANSFER_COMPLETED and \<open>streaming\<close> is set, and not at all otherwise; when the
  status is not LIBUSB_TRANSFER_COMPLETED it leaves \<open>streaming\<close> and \<open>flush\<close> cleared.
  The handler returns (it neither calls a NULL pointer nor writes outside the slot)
  when a callback is installed, the flush transfer exists whenever \<open>flush\<close> is set,
  and, for a TX transfer, the callback leaves the buffer in place and reports at most
  TRANSFER_BUFFER_SIZE valid bytes.\<close>

theorem transfer_callback_calls_callback:
  assumes "callback d = Some cb"
    and "flush d \<longrightarrow> flush_transfer d \<noteq> None"
    and "xfer_endpoint t = TX_ENDPOINT_ADDRESS \<longrightarrow>
         (\<forall>tr a. valid_length (fst (snd (cb tr a))) \<le> TRANSFER_BUFFER_SIZE \<and>
                  buffer (fst (snd (cb tr a))) \<noteq> None)"
  shows "\<exists>t' d' w'. timssdr_libusb_transfer_callback t d w = Inr (t', d', w') \<and>
     length (callback_calls (trace w')) =
       length (callback_calls (trace w)) +
         (if xfer_status t = LIBUSB_TRANSFER_COMPLETED \<and> streaming d then 1 else 0) \<and>
     (xfer_status t \<noteq> LIBUSB_TRANSFER_COMPLETED \<longrightarrow> \<not> streaming d' \<and> \<not> flush d')"
proof -
  obtain ft where ft: "flush d \<longrightarrow> flush_transfer d = Some ft"
    using assms(2) by (cases "flush_transfer d") auto
  show ?thesis
    using assms(1,3) 
    by (auto simp add: timssdr_libusb_transfer_callback_def Let_def case_prod_beta
          submit_flush_result [OF ft] pad_transfer_result prod_eq_iff
        split: option.splits)
qed

theorem transfer_callback_calls_callback_witness:
  "(\<exists>t' d' w'.
      timssdr_libusb_transfer_callback
        (idle_transfer\<lparr>xfer_endpoint := RX_ENDPOINT_ADDRESS, xfer_actual_length := 262144\<rparr>)
        (opened_device\<lparr>callback := Some accept_block, streaming := True,
           transfers_setup := True, active_transfers := 4\<rparr>)
        initial_world = Inr (t', d', w') \<and>
      length (callback_calls (trace w')) = 1) \<and>
   (\<exists>t' d' w'.
      timssdr_libusb_transfer_callback
        (idle_transfer\<lparr>xfer_endpoint := RX_ENDPOINT_ADDRESS, xfer_status := 3\<rparr>)
        (opened_device\<lparr>callback := Some accept_block, streaming := True,
           transfers_setup := True, active_transfers := 4\<rparr>)
        initial_world = Inr (t', d', w') \<and>
      length (callback_calls (trace w')) = 0 \<and> \<not> streaming d' \<and> \<not> flush d') \<and>
   (\<exists>t' d' w'.
      timssdr_libusb_transfer_callback
        (idle_transfer\<lparr>xfer_endpoint := TX_ENDPOINT_ADDRESS\<rparr>)
        (tx_session\<lparr>streaming := False\<rparr>)
        initial_world = Inr (t', d', w') \<and>
      length (callback_calls (trace w')) = 0) \<and>
   (\<exists>t' d' w'.
      timssdr_libusb_transfer_callback
        (idle_transfer\<lparr>xfer_endpoint := TX_ENDPOINT_ADDRESS\<rparr>) tx_session
        initial_world = Inr (t', d', w') \<and>
      length (callback_calls (trace w')) = 1)"
proof -
  have c: "\<forall>tr a. valid_length (fst (snd (fill_510 tr a))) \<le> TRANSFER_BUFFER_SIZE \<and>
      buffer (fst (snd (fill_510 tr a))) \<noteq> None"
    by (simp add: fill_510_def TRANSFER_BUFFER_SIZE_def)
  show ?thesis
    using
      transfer_callback_calls_callback
        [of "opened_device\<lparr>callback := Some accept_block, streaming := True,
               transfers_setup := True, active_transfers := 4\<rparr>" accept_block
            "idle_transfer\<lparr>xfer_endpoint := RX_ENDPOINT_ADDRESS,
               xfer_actual_length := 262144\<rparr>"
            initial_world]
      transfer_callback_calls_callback
        [of "opened_device\<lparr>callback := Some accept_block, streaming := True,
               transfers_setup := True, active_transfers := 4\<rparr>" accept_block
            "idle_transfer\<lparr>xfer_endpoint := RX_ENDPOINT_ADDRESS, xfer_status := 3\<rparr>"
            initial_world]
      transfer_callback_calls_callback
        [of "tx_session\<lparr>streaming := False\<rparr>" fill_510
            "idle_transfer\<lparr>xfer_endpoint := TX_ENDPOINT_ADDRESS\<rparr>" initial_world]
      transfer_callback_calls_callback
        [of tx_session fill_510
            "idle_transfer\<lparr>xfer_endpoint := TX_ENDPOINT_ADDRESS\<rparr>" initial_world]
      c
    by (simp add: opened_device_def tx_session_def idle_transfer_def initial_world_def
          libusb_codes)
qed

subsection \<open>Padding of TX transfers\<close>

lemma submitted_simps [simp]:
  "submitted [] = []"
  "submitted (es @ es') = submitted es @ submitted es'"
  "submitted (e # es) = (case e of Libusb_submit_transfer t \<Rightarrow> [t] | _ \<Rightarrow> []) @ submitted es"
  by (simp_all add: submitted_def)

lemma accepted_fills_simps [simp]:
  "accepted_fills [] = []"
  "accepted_fills (es @ es') = accepted_fills es @ accepted_fills es'"
  "accepted_fills (e # es) =
     (case e of Call_callback tr r tr' \<Rightarrow> (if r = 0 \<and> valid_length tr' > 0 then [tr'] else [])
      | _ \<Rightarrow> []) @ accepted_fills es"
  by (simp_all add: accepted_fills_def)

lemma ring_submitted_simps [simp]:
  "ring_submitted [] = []"
  "ring_submitted (es @ es') = ring_submitted es @ ring_submitted es'"
  by (simp_all add: ring_submitted_def)

lemma submit_transfers_trace:
  assumes "\<forall>k. i \<le> k \<and> k < i + n \<longrightarrow>
     xfer_buffer (ts k) \<noteq> None \<and> 0 \<le> xfer_length (ts k) \<and> xfer_length (ts k) \<le> TRANSFER_BUFFER_SIZE"
  shows "\<exists>m ts' active' error' w'.
     submit_transfers n i TX_ENDPOINT_ADDRESS cb ts active error w = Inr (ts', active', error', w') \<and>
     m \<le> n \<and>
     trace w' = trace w @ map (\<lambda>k. Libusb_submit_transfer (pad_of cb (ts k))) [i..<i + m] \<and>
     app w' = app w \<and>
     (error' = 0 \<longrightarrow> m = n) \<and> (n = 0 \<longrightarrow> error' = error)"
  using assms
proof (induction n arbitrary: i ts active error w)
  case 0
  then show ?case by simp
next
  case (Suc n)
  let ?t = "(ts i)\<lparr>xfer_endpoint := TX_ENDPOINT_ADDRESS, xfer_callback := Some cb\<rparr>"
  have slot: "xfer_buffer (ts i) \<noteq> None" "0 \<le> xfer_length (ts i)"
    "xfer_length (ts i) \<le> TRANSFER_BUFFER_SIZE"
    using Suc.prems by auto
  have pad: "pad_transfer ?t = Inr (pad_of cb (ts i))"
    using slot by (subst pad_transfer_result) (simp_all add: pad_of_def cong: if_cong)
  show ?case
  proof (cases "results w (calls w) = 0")
    case False
    then show ?thesis
      by (rule_tac x = 1 in exI) (use pad in \<open>simp add: Let_def case_prod_beta\<close>)
  next
    case True
    let ?ts = "ts(i := pad_of cb (ts i))"
    let ?w = "snd (libusb_submit_transfer (pad_of cb (ts i)) w)"
    have pre: "\<forall>k. Suc i \<le> k \<and> k < Suc i + n \<longrightarrow>
       xfer_buffer (?ts k) \<noteq> None \<and> 0 \<le> xfer_length (?ts k) \<and>
       xfer_length (?ts k) \<le> TRANSFER_BUFFER_SIZE"
      using Suc.prems by auto
    from Suc.IH [OF pre, of "active + 1" 0 ?w]
    obtain m ts' active' error' w' where
      r: "submit_transfers n (Suc i) TX_ENDPOINT_ADDRESS cb ?ts (active + 1) 0 ?w =
            Inr (ts', active', error', w')"
      and m: "m \<le> n"
      and tr: "trace w' = trace ?w @ map (\<lambda>k. Libusb_submit_transfer (pad_of cb (?ts k))) [Suc i..<Suc i + m]"
      and ap: "app w' = app ?w"
      and er: "error' = 0 \<longrightarrow> m = n"
      by blast
    have same: "map (\<lambda>k. Libusb_submit_transfer (pad_of cb (?ts k))) [Suc i..<Suc i + m] =
       map (\<lambda>k. Libusb_submit_transfer (pad_of cb (ts k))) [Suc i..<Suc i + m]"
      by (rule map_cong) auto
    have "submit_transfers (Suc n) i TX_ENDPOINT_ADDRESS cb ts active error w =
        Inr (ts', active', error', w')"
      using pad True r by (simp add: Let_def case_prod_beta)
    moreover have "trace w' = trace w @
        map (\<lambda>k. Libusb_submit_transfer (pad_of cb (ts k))) [i..<i + Suc m]"
    proof -
      have upt: "[i..<i + Suc m] = i # [Suc i..<Suc i + m]"
        by (simp add: upt_conv_Cons del: upt_Suc)
      show ?thesis
        unfolding upt tr same by simp
    qed
    ultimately show ?thesis
      by (rule_tac x = "Suc m" in exI) (use m ap er in simp)
  qed
qed


lemma new_events_append [simp]:
  "trace w' = trace w @ es \<Longrightarrow> new_events w w' = es"
  by (simp add: new_events_def)

lemma fill_transfers_trace:
  assumes cb: "callback d = Some cb"
    and contract: "\<forall>tr a. valid_length (fst (snd (cb tr a))) \<le> TRANSFER_BUFFER_SIZE \<and>
                           buffer (fst (snd (cb tr a))) \<noteq> None"
  shows "\<exists>ready ts' w' es.
     fill_transfers n i d ts w = Inr (ts', w', ready) \<and> i \<le> ready \<and> ready \<le> i + n \<and>
     trace w' = trace w @ es \<and> submitted es = [] \<and>
     length (accepted_fills es) = ready - i \<and>
     (\<forall>k. i \<le> k \<and> k < ready \<longrightarrow>
        xfer_length (ts' k) = valid_length (accepted_fills es ! (k - i)) \<and>
        xfer_buffer (ts' k) = buffer (accepted_fills es ! (k - i)) \<and>
        0 < xfer_length (ts' k) \<and> xfer_length (ts' k) \<le> TRANSFER_BUFFER_SIZE \<and>
        xfer_buffer (ts' k) \<noteq> None) \<and>
     (\<forall>k. k < i \<longrightarrow> ts' k = ts k) \<and>
     results w' = results w \<and> calls w' = calls w"
proof (induction n arbitrary: i ts w)
  case 0
  show ?case
    by (rule exI [where x = i]) auto
next
  case (Suc n)
  let ?tr = "\<lparr>buffer = xfer_buffer (ts i), buffer_length = TRANSFER_BUFFER_SIZE,
              valid_length = TRANSFER_BUFFER_SIZE, transfer_rx_ctx = rx_ctx d,
              transfer_tx_ctx = tx_ctx d\<rparr>"
  let ?r = "fst (cb ?tr (app w))"
  let ?tr' = "fst (snd (cb ?tr (app w)))"
  let ?a = "snd (snd (cb ?tr (app w)))"
  let ?w1 = "(emit (Call_callback ?tr ?r ?tr') w)\<lparr>app := ?a\<rparr>"
  let ?ts1 = "ts(i := (ts i)\<lparr>xfer_buffer := buffer ?tr'\<rparr>)"
  let ?ts2 = "?ts1(i := (?ts1 i)\<lparr>xfer_length := valid_length ?tr'\<rparr>)"
  show ?case
  proof (cases "?r = 0 \<and> valid_length ?tr' > 0")
    case False
    have 1: "fill_transfers (Suc n) i d ts w = Inr (?ts1, ?w1, i)"
      using cb False by (auto simp add: Let_def case_prod_beta)
    have 2: "trace ?w1 = trace w @ [Call_callback ?tr ?r ?tr']"
      by simp
    have 3: "accepted_fills [Call_callback ?tr ?r ?tr'] = []"
      using False by auto
    show ?thesis
    proof (intro exI conjI)
      show "fill_transfers (Suc n) i d ts w = Inr (?ts1, ?w1, i)"
        by (fact 1)
      show "trace ?w1 = trace w @ [Call_callback ?tr ?r ?tr']"
        by (fact 2)
      show "length (accepted_fills [Call_callback ?tr ?r ?tr']) = i - i"
        unfolding 3 by simp
    qed auto
  next
    case True
    from Suc.IH [of "Suc i" ?ts2 ?w1]
    obtain ready ts' w' es where
      r: "fill_transfers n (Suc i) d ?ts2 ?w1 = Inr (ts', w', ready)"
      and b: "Suc i \<le> ready" "ready \<le> Suc i + n"
      and tr: "trace w' = trace ?w1 @ es"
      and su: "submitted es = []"
      and le: "length (accepted_fills es) = ready - Suc i"
      and sl: "\<forall>k. Suc i \<le> k \<and> k < ready \<longrightarrow>
        xfer_length (ts' k) = valid_length (accepted_fills es ! (k - Suc i)) \<and>
        xfer_buffer (ts' k) = buffer (accepted_fills es ! (k - Suc i)) \<and>
        0 < xfer_length (ts' k) \<and> xfer_length (ts' k) \<le> TRANSFER_BUFFER_SIZE \<and>
        xfer_buffer (ts' k) \<noteq> None"
      and fr: "\<forall>k. k < Suc i \<longrightarrow> ts' k = ?ts2 k"
      and rc: "results w' = results ?w1" "calls w' = calls ?w1"
      by blast
    let ?es = "Call_callback ?tr ?r ?tr' # es"
    have 1: "fill_transfers (Suc n) i d ts w = Inr (ts', w', ready)"
      using cb True r by (simp add: Let_def case_prod_beta)
    have 2: "trace w' = trace w @ ?es"
      using tr by simp
    have 3: "accepted_fills ?es = ?tr' # accepted_fills es"
      using True by simp
    have 4: "submitted ?es = []"
      using su by simp
    have 5: "ts' i = ?ts2 i"
      using fr by simp
    have 6: "\<forall>k. i \<le> k \<and> k < ready \<longrightarrow>
        xfer_length (ts' k) = valid_length (accepted_fills ?es ! (k - i)) \<and>
        xfer_buffer (ts' k) = buffer (accepted_fills ?es ! (k - i)) \<and>
        0 < xfer_length (ts' k) \<and> xfer_length (ts' k) \<le> TRANSFER_BUFFER_SIZE \<and>
        xfer_buffer (ts' k) \<noteq> None"
    proof (intro allI impI)
      fix k
      assume k: "i \<le> k \<and> k < ready"
      show "xfer_length (ts' k) = valid_length (accepted_fills ?es ! (k - i)) \<and>
        xfer_buffer (ts' k) = buffer (accepted_fills ?es ! (k - i)) \<and>
        0 < xfer_length (ts' k) \<and> xfer_length (ts' k) \<le> TRANSFER_BUFFER_SIZE \<and>
        xfer_buffer (ts' k) \<noteq> None"
      proof (cases "k = i")
        case True
        have "ts' k = ?ts2 i"
          using True 5 by simp
        then show ?thesis
          unfolding 3 using True \<open>?r = 0 \<and> valid_length ?tr' > 0\<close> contract by simp
      next
        case False
        with k have k': "Suc i \<le> k \<and> k < ready" by simp
        have ki: "k - i = Suc (k - Suc i)"
          using k' by arith
        have "xfer_length (ts' k) = valid_length (accepted_fills es ! (k - Suc i))"
          "xfer_buffer (ts' k) = buffer (accepted_fills es ! (k - Suc i))"
          "0 < xfer_length (ts' k)" "xfer_length (ts' k) \<le> TRANSFER_BUFFER_SIZE"
          "xfer_buffer (ts' k) \<noteq> None"
          using sl k' by blast+
        then show ?thesis
          unfolding 3 ki by (simp del: not_None_eq)
      qed
    qed
    have 7: "\<forall>k. k < i \<longrightarrow> ts' k = ts k"
      using fr by simp
    show ?thesis
    proof (intro exI conjI)
      show "fill_transfers (Suc n) i d ts w = Inr (ts', w', ready)"
        by (fact 1)
      show "trace w' = trace w @ ?es"
        by (fact 2)
      show "submitted ?es = []"
        by (fact 4)
      show "length (accepted_fills ?es) = ready - i"
        unfolding 3 using le b by simp
      show "\<forall>k. i \<le> k \<and> k < ready \<longrightarrow>
        xfer_length (ts' k) = valid_length (accepted_fills ?es ! (k - i)) \<and>
        xfer_buffer (ts' k) = buffer (accepted_fills ?es ! (k - i)) \<and>
        0 < xfer_length (ts' k) \<and> xfer_length (ts' k) \<le> TRANSFER_BUFFER_SIZE \<and>
        xfer_buffer (ts' k) \<noteq> None"
        by (fact 6)
      show "\<forall>k. k < i \<longrightarrow> ts' k = ts k"
        by (fact 7)
    qed (use b rc in auto)
  qed
qed


lemma trace_of_maps [simp]:
  "submitted (map (\<lambda>k. Libusb_submit_transfer (f k)) ks) = map f ks"
  "accepted_fills (map (\<lambda>k. Libusb_submit_transfer (f k)) ks) = []"
  "callback_calls (map (\<lambda>k. Libusb_submit_transfer (f k)) ks) = []"
  by (induction ks) simp_all

lemma padded_pad_of:
  assumes "xfer_length t = valid_length tr" "0 \<le> valid_length tr"
  shows "padded tr (pad_of cb t)"
  using assms by (auto simp add: padded_def pad_of_def)

lemma prepare_transfers_tx_padded:
  assumes cb: "callback d = Some cb"
    and contract: "\<forall>tr a. valid_length (fst (snd (cb tr a))) \<le> TRANSFER_BUFFER_SIZE \<and>
                           buffer (fst (snd (cb tr a))) \<noteq> None"
    and fl: "flush d \<longrightarrow> flush_transfer d \<noteq> None"
    and ftc: "\<forall>ft. flush_transfer d = Some ft \<longrightarrow> xfer_callback ft \<noteq> Some Transfer_callback"
  shows "\<exists>r d' w'.
     prepare_transfers d TX_ENDPOINT_ADDRESS Transfer_callback error w = Inr (r, d', w') \<and>
     tx_padded (new_events w w') \<and>
     (r = TIMSSDR_SUCCESS \<longrightarrow>
        length (ring_submitted (new_events w w')) = length (accepted_fills (new_events w w')))"
proof (cases "transfers d")
  case None
  then show ?thesis
    by (simp add: prepare_transfers_def new_events_def tx_padded_def error_codes)
next
  case (Some ts)
  from fill_transfers_trace [OF cb contract, of TRANSFER_COUNT 0 ts w]
  obtain ready ts1 w1 es where
    f: "fill_transfers TRANSFER_COUNT 0 d ts w = Inr (ts1, w1, ready)"
    and tr1: "trace w1 = trace w @ es"
    and su: "submitted es = []"
    and le: "length (accepted_fills es) = ready"
    and sl: "\<forall>k. 0 \<le> k \<and> k < ready \<longrightarrow>
        xfer_length (ts1 k) = valid_length (accepted_fills es ! (k - 0)) \<and>
        xfer_buffer (ts1 k) = buffer (accepted_fills es ! (k - 0)) \<and>
        0 < xfer_length (ts1 k) \<and> xfer_length (ts1 k) \<le> TRANSFER_BUFFER_SIZE \<and>
        xfer_buffer (ts1 k) \<noteq> None"
    by auto
  have pre: "\<forall>k. 0 \<le> k \<and> k < 0 + ready \<longrightarrow>
     xfer_buffer (ts1 k) \<noteq> None \<and> 0 \<le> xfer_length (ts1 k) \<and>
     xfer_length (ts1 k) \<le> TRANSFER_BUFFER_SIZE"
  proof (intro allI impI)
    fix k
    assume "0 \<le> k \<and> k < 0 + ready"
    then have k: "0 \<le> k \<and> k < ready"
      by simp
    have "0 < xfer_length (ts1 k)" "xfer_length (ts1 k) \<le> TRANSFER_BUFFER_SIZE"
      "xfer_buffer (ts1 k) \<noteq> None"
      using sl k by blast+
    then show "xfer_buffer (ts1 k) \<noteq> None \<and> 0 \<le> xfer_length (ts1 k) \<and>
      xfer_length (ts1 k) \<le> TRANSFER_BUFFER_SIZE"
      by simp
  qed
  from submit_transfers_trace [OF pre, of Transfer_callback "active_transfers d" error
      "emit Pthread_mutex_lock w1"]
  obtain m ts2 active' error' w2 where
    s: "submit_transfers ready 0 TX_ENDPOINT_ADDRESS Transfer_callback ts1 (active_transfers d)
          error (emit Pthread_mutex_lock w1) = Inr (ts2, active', error', w2)"
    and m: "m \<le> ready"
    and tr2: "trace w2 = trace (emit Pthread_mutex_lock w1) @
        map (\<lambda>k. Libusb_submit_transfer (pad_of Transfer_callback (ts1 k))) [0..<0 + m]"
    and er: "error' = 0 \<longrightarrow> m = ready"
    by blast
  let ?ring = "map (\<lambda>k. pad_of Transfer_callback (ts1 k)) [0..<m]"
  have ring: "filter (\<lambda>t. xfer_callback t = Some Transfer_callback) ?ring = ?ring"
    by (simp add: pad_of_def)
  have pad: "list_all2 padded (take m (accepted_fills es)) ?ring"
  proof (rule list_all2_all_nthI)
    show "length (take m (accepted_fills es)) = length ?ring"
      using m le by simp
  next
    fix k
    assume "k < length (take m (accepted_fills es))"
    then have k: "k < m" "k < ready"
      using m by simp_all
    have "0 \<le> k \<and> k < ready"
      using k by simp
    with sl have "xfer_length (ts1 k) = valid_length (accepted_fills es ! (k - 0))"
      "0 < xfer_length (ts1 k)"
      by blast+
    then have "padded (accepted_fills es ! k) (pad_of Transfer_callback (ts1 k))"
      by (intro padded_pad_of) simp_all
    then show "padded (take m (accepted_fills es) ! k) (?ring ! k)"
      using k by simp
  qed
  let ?d2 = "d\<lparr>transfers := Some ts2, active_transfers := active'\<rparr>"
  let ?es2 = "es @ Pthread_mutex_lock #
      map (\<lambda>k. Libusb_submit_transfer (pad_of Transfer_callback (ts1 k))) [0..<m]"
  have tr2': "trace w2 = trace w @ ?es2"
    using tr1 tr2 by simp
  have good: "tx_padded (?es2 @ more)"
    if "ring_submitted more = []" "accepted_fills more = []" for more
    using that pad m le su ring by (simp add: tx_padded_def ring_submitted_def)
  show ?thesis
  proof (cases "error' = 0")
    case False
    have "prepare_transfers d TX_ENDPOINT_ADDRESS Transfer_callback error w =
        Inr (TIMSSDR_ERROR_LIBUSB, ?d2, emit Pthread_mutex_unlock w2)"
      using Some f s False by (simp add: prepare_transfers_def)
    moreover have "new_events w (emit Pthread_mutex_unlock w2) = ?es2 @ [Pthread_mutex_unlock]"
      using tr2' by (intro new_events_append) simp
    moreover have "tx_padded (?es2 @ [Pthread_mutex_unlock])"
      by (rule good) (simp_all add: ring_submitted_def)
    ultimately show ?thesis
      by (simp add: error_codes)
  next
    case True
    then have mr: "m = ready"
      using er by simp
    show ?thesis
    proof (cases "ready \<noteq> TRANSFER_COUNT \<and> flush d")
      case False
      have "prepare_transfers d TX_ENDPOINT_ADDRESS Transfer_callback error w =
          Inr (TIMSSDR_SUCCESS,
               ?d2\<lparr>streaming := (ready = TRANSFER_COUNT), transfers_setup := True\<rparr>,
               emit Pthread_mutex_unlock w2)"
        using Some f s True False
        by (auto simp add: prepare_transfers_def setup_streaming_def Let_def)
      moreover have "new_events w (emit Pthread_mutex_unlock w2) = ?es2 @ [Pthread_mutex_unlock]"
        using tr2' by (intro new_events_append) simp
      moreover have "tx_padded (?es2 @ [Pthread_mutex_unlock])"
        by (rule good) (simp_all add: ring_submitted_def)
      ultimately show ?thesis
        using mr le su ring by (simp add: ring_submitted_def)
    next
      case fls: True
      then obtain ft where ft: "flush_transfer d = Some ft"
        using fl by auto
      then have ftc': "xfer_callback ft \<noteq> Some Transfer_callback"
        using ftc by simp
      let ?w3 = "snd (libusb_submit_transfer ft w2)"
      let ?e3 = "results w2 (calls w2)"
      let ?w4 = "emit Pthread_mutex_unlock
        (if ?e3 \<noteq> 0 then ?w3\<lparr>last_libusb_error := ?e3\<rparr> else ?w3)"
      have "prepare_transfers d TX_ENDPOINT_ADDRESS Transfer_callback error w =
          Inr (if ?e3 = 0 then TIMSSDR_SUCCESS else TIMSSDR_ERROR_LIBUSB,
               ?d2\<lparr>streaming := (ready = TRANSFER_COUNT), transfers_setup := True\<rparr>, ?w4)"
        using Some f s True fls ft
        by (simp add: prepare_transfers_def setup_streaming_def Let_def case_prod_beta)
      moreover have "new_events w ?w4 =
          ?es2 @ [Libusb_submit_transfer ft, Pthread_mutex_unlock]"
        using tr2' by (intro new_events_append) simp
      moreover have "tx_padded (?es2 @ [Libusb_submit_transfer ft, Pthread_mutex_unlock])"
        using ftc' by (intro good) (simp_all add: ring_submitted_def)
      ultimately show ?thesis
        using mr le su ring ftc' by (simp add: ring_submitted_def)
    qed
  qed
qed


lemma transfer_callback_tx_padded:
  assumes cb: "callback d = Some cb"
    and contract: "\<forall>tr a. valid_length (fst (snd (cb tr a))) \<le> TRANSFER_BUFFER_SIZE \<and>
                           buffer (fst (snd (cb tr a))) \<noteq> None"
    and fl: "flush d \<longrightarrow> flush_transfer d \<noteq> None"
    and ftc: "\<forall>ft. flush_transfer d = Some ft \<longrightarrow> xfer_callback ft \<noteq> Some Transfer_callback"
    and ep: "xfer_endpoint t = TX_ENDPOINT_ADDRESS"
    and tcb: "xfer_callback t = Some Transfer_callback"
  shows "\<exists>t' d' w'.
     timssdr_libusb_transfer_callback t d w = Inr (t', d', w') \<and>
     tx_padded (new_events w w') \<and>
     (xfer_status t = LIBUSB_TRANSFER_COMPLETED \<and> streaming d \<and> transfers_setup d \<longrightarrow>
        length (ring_submitted (new_events w w')) = length (accepted_fills (new_events w w')))"
proof -
  obtain ft where ft: "flush d \<longrightarrow> flush_transfer d = Some ft"
    using fl by (cases "flush_transfer d") auto
  have ftc': "flush d \<longrightarrow> xfer_callback ft \<noteq> Some Transfer_callback"
    using ft ftc by auto
  show ?thesis
    using cb contract ep tcb ftc'
    by (auto simp add: timssdr_libusb_transfer_callback_def Let_def case_prod_beta
          submit_flush_result [OF ft] pad_transfer_result prod_eq_iff
          new_events_def tx_padded_def ring_submitted_def padded_def
        split: option.splits)
qed


text \<open>C2: every transfer of the ring that is handed to the transport in a TX session,
  by \<open>timssdr_start_tx\<close> (through \<^verbatim>\<open>prepare_transfers\<close>) and by the completion handler
  when it resubmits, has as its length the \<open>valid_length\<close> the application's callback set
  (with return value 0 and \<open>valid_length > 0\<close>) rounded up to the nearest multiple of 512,
  and zero bytes from \<open>valid_length\<close> up to that length: the \<open>k\<close>-th such transfer is
  the padding of the \<open>k\<close>-th block the callback filled. On success of
  \<open>timssdr_start_tx\<close>, and in the handler while the session is set up and streaming,
  every filled block is submitted. Both calls return, given that the callback leaves
  the buffer in place and reports at most TRANSFER_BUFFER_SIZE valid bytes, and that
  the flush transfer exists whenever \<open>flush\<close> is set and has the flush handler as its
  completion handler.\<close>

theorem tx_transfers_padded:
  assumes contract: "\<forall>tr a. valid_length (fst (snd (cb tr a))) \<le> TRANSFER_BUFFER_SIZE \<and>
                           buffer (fst (snd (cb tr a))) \<noteq> None"
    and fl: "flush d \<longrightarrow> flush_transfer d \<noteq> None"
    and ftc: "\<forall>ft. flush_transfer d = Some ft \<longrightarrow> xfer_callback ft = Some Flush_callback"
  shows "(\<exists>r d' w'.
      timssdr_start_tx d (Some cb) ctx error w = Inr (r, d', w') \<and>
      tx_padded (new_events w w') \<and>
      (r = TIMSSDR_SUCCESS \<longrightarrow>
         length (ring_submitted (new_events w w')) = length (accepted_fills (new_events w w')))) \<and>
    (callback d = Some cb \<and> xfer_endpoint t = TX_ENDPOINT_ADDRESS \<and>
     xfer_callback t = Some Transfer_callback \<longrightarrow>
     (\<exists>t' d' w'.
        timssdr_libusb_transfer_callback t d w = Inr (t', d', w') \<and>
        tx_padded (new_events w w') \<and>
        (xfer_status t = LIBUSB_TRANSFER_COMPLETED \<and> streaming d \<and> transfers_setup d \<longrightarrow>
           length (ring_submitted (new_events w w')) =
             length (accepted_fills (new_events w w')))))"
proof (intro conjI impI)
  have ftc': "\<forall>ft. flush_transfer d = Some ft \<longrightarrow> xfer_callback ft \<noteq> Some Transfer_callback"
    using ftc by auto
  {
    assume "callback d = Some cb \<and> xfer_endpoint t = TX_ENDPOINT_ADDRESS \<and>
      xfer_callback t = Some Transfer_callback"
    then show "\<exists>t' d' w'.
        timssdr_libusb_transfer_callback t d w = Inr (t', d', w') \<and>
        tx_padded (new_events w w') \<and>
        (xfer_status t = LIBUSB_TRANSFER_COMPLETED \<and> streaming d \<and> transfers_setup d \<longrightarrow>
           length (ring_submitted (new_events w w')) =
             length (accepted_fills (new_events w w')))"
      using transfer_callback_tx_padded [OF _ contract fl ftc'] by blast
  }
  show "\<exists>r d' w'.
      timssdr_start_tx d (Some cb) ctx error w = Inr (r, d', w') \<and>
      tx_padded (new_events w w') \<and>
      (r = TIMSSDR_SUCCESS \<longrightarrow>
         length (ring_submitted (new_events w w')) = length (accepted_fills (new_events w w')))"
  proof (cases "transfers_setup d")
    case True
    then show ?thesis
      by (simp add: timssdr_start_tx_def prepare_setup_transfers_def Let_def new_events_def
            tx_padded_def error_codes)
  next
    case False
    let ?d = "(if flush_transfer d \<noteq> None then d\<lparr>flush := True\<rparr> else d)
      \<lparr>tx_ctx := ctx, callback := Some cb\<rparr>"
    have "timssdr_start_tx d (Some cb) ctx error w =
        prepare_transfers ?d TX_ENDPOINT_ADDRESS Transfer_callback error w"
      using False by (simp add: timssdr_start_tx_def prepare_setup_transfers_def Let_def)
    moreover have "callback ?d = Some cb" "flush ?d \<longrightarrow> flush_transfer ?d \<noteq> None"
      "\<forall>ft. flush_transfer ?d = Some ft \<longrightarrow> xfer_callback ft \<noteq> Some Transfer_callback"
      using fl ftc' by auto
    ultimately show ?thesis
      using prepare_transfers_tx_padded [OF _ contract, of ?d error w] by simp
  qed
qed

lemma round_up_512_510: "round_up_512 510 = 512"
  by (simp add: round_up_512_def)


lemma TRANSFER_COUNT_Suc: "TRANSFER_COUNT = Suc (Suc (Suc (Suc 0)))"
  by (simp add: TRANSFER_COUNT_def)

lemma start_tx_example:
  "\<exists>d' w'. timssdr_start_tx opened_device (Some fill_510) 0 0 initial_world =
      Inr (TIMSSDR_SUCCESS, d', w') \<and>
     length (accepted_fills (new_events initial_world w')) = 4 \<and> streaming d'"
  by (simp add: timssdr_start_tx_def prepare_setup_transfers_def prepare_transfers_def
        opened_device_def initial_world_def fill_510_def idle_transfer_def
        TRANSFER_COUNT_Suc Let_def case_prod_beta pad_transfer_result round_up_512_510
        TRANSFER_BUFFER_SIZE_def
        setup_streaming_def new_events_def libusb_codes error_codes)


lemma transfer_callback_example:
  "\<exists>t' d' w'.
      timssdr_libusb_transfer_callback
        (idle_transfer\<lparr>xfer_endpoint := TX_ENDPOINT_ADDRESS,
           xfer_callback := Some Transfer_callback\<rparr>)
        (opened_device\<lparr>callback := Some fill_510, streaming := True,
           transfers_setup := True, active_transfers := 4\<rparr>)
        initial_world = Inr (t', d', w') \<and>
      length (accepted_fills (new_events initial_world w')) = 1"
  by (simp add: timssdr_libusb_transfer_callback_def
        opened_device_def initial_world_def fill_510_def idle_transfer_def
        Let_def case_prod_beta pad_transfer_result round_up_512_510 prod_eq_iff
        TRANSFER_BUFFER_SIZE_def new_events_def libusb_codes error_codes)

theorem tx_transfers_padded_witness:
  "(\<exists>d' w'.
      timssdr_start_tx opened_device (Some fill_510) 0 0 initial_world =
        Inr (TIMSSDR_SUCCESS, d', w') \<and>
      tx_padded (new_events initial_world w') \<and>
      length (ring_submitted (new_events initial_world w')) = 4) \<and>
   (\<exists>t' d' w'.
      timssdr_libusb_transfer_callback
        (idle_transfer\<lparr>xfer_endpoint := TX_ENDPOINT_ADDRESS,
           xfer_callback := Some Transfer_callback\<rparr>)
        (opened_device\<lparr>callback := Some fill_510, streaming := True,
           transfers_setup := True, active_transfers := 4\<rparr>)
        initial_world = Inr (t', d', w') \<and>
      tx_padded (new_events initial_world w') \<and>
      length (ring_submitted (new_events initial_world w')) = 1)"
proof -
  let ?t = "idle_transfer\<lparr>xfer_endpoint := TX_ENDPOINT_ADDRESS,
    xfer_callback := Some Transfer_callback\<rparr>"
  let ?d = "opened_device\<lparr>callback := Some fill_510, streaming := True,
    transfers_setup := True, active_transfers := 4\<rparr>"
  have c: "\<forall>tr a. valid_length (fst (snd (fill_510 tr a))) \<le> TRANSFER_BUFFER_SIZE \<and>
      buffer (fst (snd (fill_510 tr a))) \<noteq> None"
    by (simp add: fill_510_def TRANSFER_BUFFER_SIZE_def)
  have 1: "\<exists>r d' w'.
      timssdr_start_tx opened_device (Some fill_510) 0 0 initial_world = Inr (r, d', w') \<and>
      tx_padded (new_events initial_world w') \<and>
      (r = TIMSSDR_SUCCESS \<longrightarrow>
         length (ring_submitted (new_events initial_world w')) =
           length (accepted_fills (new_events initial_world w')))"
    using tx_transfers_padded [OF c, of opened_device 0 0 initial_world ?t]
    by (simp add: opened_device_def)
  have 2: "\<exists>t' d' w'.
      timssdr_libusb_transfer_callback ?t ?d initial_world = Inr (t', d', w') \<and>
      tx_padded (new_events initial_world w') \<and>
      (xfer_status ?t = LIBUSB_TRANSFER_COMPLETED \<and> streaming ?d \<and> transfers_setup ?d \<longrightarrow>
         length (ring_submitted (new_events initial_world w')) =
           length (accepted_fills (new_events initial_world w')))"
    using tx_transfers_padded [OF c, of ?d 0 0 initial_world ?t]
    by (simp add: opened_device_def)
  have st: "xfer_status ?t = LIBUSB_TRANSFER_COMPLETED \<and> streaming ?d \<and> transfers_setup ?d"
    by (simp add: idle_transfer_def libusb_codes)
  from 1 start_tx_example 2 transfer_callback_example st show ?thesis
    by (metis Inr_inject prod.inject)
qed

subsection \<open>Stopping a session\<close>

lemma transfer_callback_while_stopping:
  assumes "\<not> streaming d" "\<not> flush d"
  shows "\<exists>t' d' w'. timssdr_libusb_transfer_callback t d w = Inr (t', d', w') \<and>
     \<not> streaming d' \<and> \<not> flush d' \<and> transfers_setup d' = transfers_setup d \<and>
     transfers d' = transfers d \<and> flush_transfer d' = flush_transfer d \<and>
     active_transfers d' = active_transfers d - 1"
  using assms
  by (auto simp add: timssdr_libusb_transfer_callback_def Let_def case_prod_beta
        submit_flush_def prod_eq_iff split: option.splits)

lemma flush_callback_while_stopping:
  "\<exists>d' w'. timssdr_libusb_flush_callback t d w = (d', w') \<and>
     streaming d' = streaming d \<and> \<not> flush d' \<and> transfers_setup d' = transfers_setup d \<and>
     transfers d' = transfers d \<and> flush_transfer d' = flush_transfer d \<and>
     active_transfers d' = 0"
  by (auto simp add: timssdr_libusb_flush_callback_def Let_def split: option.splits)

lemma outstanding_after_nonneg:
  "outstanding_after hf n cs = Some n' \<Longrightarrow> 0 \<le> n \<Longrightarrow> 0 \<le> n'"
  by (induction hf n cs rule: outstanding_after.induct) (auto split: if_splits)

lemma handle_completions_while_stopping:
  assumes "outstanding_after (flush_transfer d \<noteq> None) (active_transfers d) cs = Some n'"
    and "\<not> streaming d" "\<not> flush d" "transfers d \<noteq> None"
  shows "\<exists>d' w'. handle_completions cs d w = Inr (d', w') \<and>
     \<not> streaming d' \<and> \<not> flush d' \<and> transfers_setup d' = transfers_setup d \<and>
     transfers d' \<noteq> None \<and> (flush_transfer d' \<noteq> None) = (flush_transfer d \<noteq> None) \<and>
     active_transfers d' = n'"
  using assms
proof (induction cs arbitrary: d w)
  case Nil
  then show ?case by simp
next
  case (Cons c cs)
  show ?case
  proof (cases c)
    case (Transfer_completion i st actual)
    from Cons.prems obtain ts where ts: "transfers d = Some ts"
      by auto
    from transfer_callback_while_stopping [OF Cons.prems(2,3),
        of "(ts i)\<lparr>xfer_status := st, xfer_actual_length := actual\<rparr>" w]
    obtain t1 d1 w1 where
      h: "timssdr_libusb_transfer_callback
            ((ts i)\<lparr>xfer_status := st, xfer_actual_length := actual\<rparr>) d w = Inr (t1, d1, w1)"
      and p: "\<not> streaming d1" "\<not> flush d1" "transfers_setup d1 = transfers_setup d"
        "transfers d1 = transfers d" "flush_transfer d1 = flush_transfer d"
        "active_transfers d1 = active_transfers d - 1"
      by blast
    let ?d = "d1\<lparr>transfers := Some (ts(i := t1))\<rparr>"
    have pos: "0 < active_transfers d"
      and rest: "outstanding_after (flush_transfer d \<noteq> None) (active_transfers d - 1) cs = Some n'"
      using Cons.prems(1) Transfer_completion by (auto split: if_splits)
    have "\<exists>d' w'. handle_completions cs ?d w1 = Inr (d', w') \<and>
       \<not> streaming d' \<and> \<not> flush d' \<and> transfers_setup d' = transfers_setup ?d \<and>
       transfers d' \<noteq> None \<and> (flush_transfer d' \<noteq> None) = (flush_transfer ?d \<noteq> None) \<and>
       active_transfers d' = n'"
      using rest p by (intro Cons.IH) simp_all
    moreover have "handle_completions (c # cs) d w = handle_completions cs ?d w1"
      using Transfer_completion ts h by (simp add: handle_completion_def)
    ultimately show ?thesis
      using p by simp
  next
    case (Flush_completion st actual)
    have hf: "flush_transfer d \<noteq> None"
      and rest: "outstanding_after True 0 cs = Some n'"
      using Cons.prems(1) Flush_completion by (auto split: if_splits)
    then obtain ft where ft: "flush_transfer d = Some ft"
      by auto
    let ?ft = "ft\<lparr>xfer_status := st, xfer_actual_length := actual\<rparr>"
    from flush_callback_while_stopping [of ?ft d w]
    obtain d1 w1 where
      h: "timssdr_libusb_flush_callback ?ft d w = (d1, w1)"
      and p: "streaming d1 = streaming d" "\<not> flush d1" "transfers_setup d1 = transfers_setup d"
        "transfers d1 = transfers d" "flush_transfer d1 = flush_transfer d"
        "active_transfers d1 = 0"
      by blast
    let ?d = "d1\<lparr>flush_transfer := Some ?ft\<rparr>"
    have "\<exists>d' w'. handle_completions cs ?d w1 = Inr (d', w') \<and>
       \<not> streaming d' \<and> \<not> flush d' \<and> transfers_setup d' = transfers_setup ?d \<and>
       transfers d' \<noteq> None \<and> (flush_transfer d' \<noteq> None) = (flush_transfer ?d \<noteq> None) \<and>
       active_transfers d' = n'"
      using rest p Cons.prems by (intro Cons.IH) simp_all
    moreover have "handle_completions (c # cs) d w = handle_completions cs ?d w1"
      using Flush_completion ft h by (simp add: handle_completion_def)
    ultimately show ?thesis
      using p hf by simp
  qed
qed

lemma wait_all_finished_drains:
  assumes "transport_drains (flush_transfer d \<noteq> None) (active_transfers d) css"
    and "\<not> streaming d" "\<not> flush d" "transfers d \<noteq> None" "0 \<le> active_transfers d"
  shows "\<exists>d' w'. wait_all_finished css d w = Inr (d', w') \<and>
     \<not> streaming d' \<and> \<not> flush d' \<and> transfers_setup d' = transfers_setup d \<and>
     active_transfers d' = 0"
  using assms
proof (induction css arbitrary: d w)
  case Nil
  then show ?case by simp
next
  case (Cons cs css)
  show ?case
  proof (cases "0 < active_transfers d")
    case False
    with Cons.prems show ?thesis by simp
  next
    case True
    with Cons.prems(1) obtain n' where
      n': "outstanding_after (flush_transfer d \<noteq> None) (active_transfers d) cs = Some n'"
      and dr: "transport_drains (flush_transfer d \<noteq> None) n' css"
      by (auto split: option.splits)
    from handle_completions_while_stopping [OF n' Cons.prems(2,3,4),
        of "emit Pthread_cond_wait w"]
    obtain d1 w1 where
      h: "handle_completions cs d (emit Pthread_cond_wait w) = Inr (d1, w1)"
      and p: "\<not> streaming d1" "\<not> flush d1" "transfers_setup d1 = transfers_setup d"
        "transfers d1 \<noteq> None" "(flush_transfer d1 \<noteq> None) = (flush_transfer d \<noteq> None)"
        "active_transfers d1 = n'"
      by blast
    have "0 \<le> n'"
      using n' Cons.prems(5) by (rule outstanding_after_nonneg)
    then have "\<exists>d' w'. wait_all_finished css d1 w1 = Inr (d', w') \<and>
       \<not> streaming d' \<and> \<not> flush d' \<and> transfers_setup d' = transfers_setup d1 \<and>
       active_transfers d' = 0"
      using dr p by (intro Cons.IH) simp_all
    moreover have "wait_all_finished (cs # css) d w = wait_all_finished css d1 w1"
      using True h by simp
    ultimately show ?thesis
      using p by simp
  qed
qed


lemma cancel_transfers_result:
  assumes tr: "transfers d \<noteq> None"
  shows "(\<not> transfers_setup d \<longrightarrow>
       cancel_transfers css d w = Inr (TIMSSDR_ERROR_OTHER, d\<lparr>streaming := False\<rparr>, w)) \<and>
    (transfers_setup d \<and> 0 \<le> active_transfers d \<and>
     transport_drains (flush_transfer d \<noteq> None) (active_transfers d) css \<longrightarrow>
       (\<exists>d' w'. cancel_transfers css d w = Inr (TIMSSDR_SUCCESS, d', w') \<and>
          active_transfers d' = 0 \<and> \<not> transfers_setup d' \<and> \<not> flush d' \<and> \<not> streaming d'))"
proof (intro conjI impI)
  assume "\<not> transfers_setup d"
  then show "cancel_transfers css d w = Inr (TIMSSDR_ERROR_OTHER, d\<lparr>streaming := False\<rparr>, w)"
    by (simp add: cancel_transfers_def transfers_check_setup_def)
next
  assume a: "transfers_setup d \<and> 0 \<le> active_transfers d \<and>
    transport_drains (flush_transfer d \<noteq> None) (active_transfers d) css"
  from tr obtain ts where ts: "transfers d = Some ts"
    by auto
  let ?w = "case flush_transfer d of
      None \<Rightarrow> fold (\<lambda>transfer_index. emit (Libusb_cancel_transfer (ts transfer_index)))
        [0..<TRANSFER_COUNT] (emit Pthread_mutex_lock w)
    | Some ft \<Rightarrow> emit (Libusb_cancel_transfer ft)
        (fold (\<lambda>transfer_index. emit (Libusb_cancel_transfer (ts transfer_index)))
           [0..<TRANSFER_COUNT] (emit Pthread_mutex_lock w))"
  let ?d = "d\<lparr>streaming := False, transfers_setup := False, flush := False\<rparr>"
  from wait_all_finished_drains [of ?d css ?w]
  obtain d' w' where
    wt: "wait_all_finished css ?d ?w = Inr (d', w')"
    and p: "\<not> streaming d'" "\<not> flush d'" "transfers_setup d' = transfers_setup ?d"
      "active_transfers d' = 0"
    using a tr by auto
  have "cancel_transfers css d w = Inr (TIMSSDR_SUCCESS, d', emit Pthread_mutex_unlock w')"
    using a ts wt by (simp add: cancel_transfers_def transfers_check_setup_def Let_def)
  then show "\<exists>d' w'. cancel_transfers css d w = Inr (TIMSSDR_SUCCESS, d', w') \<and>
      active_transfers d' = 0 \<and> \<not> transfers_setup d' \<and> \<not> flush d' \<and> \<not> streaming d'"
    using p by simp
qed

text \<open>On an open device (the ring is allocated), \<open>timssdr_stop_rx\<close> and
  \<open>timssdr_stop_tx\<close> return TIMSSDR_ERROR_OTHER when \<open>transfers_setup\<close> is false and change
  nothing but \<open>streaming\<close>, which they clear. When \<open>transfers_setup\<close> is true they return
  TIMSSDR_SUCCESS, and at the return \<open>active_transfers\<close> is 0 and \<open>transfers_setup\<close>,
  \<open>flush\<close> and \<open>streaming\<close> are false, in case \<open>active_transfers\<close> is not negative
  at the call and the transport completes what is outstanding and nothing else
  while the call waits. The code establishes neither of the two conditions.\<close>

lemma stop_postcondition_drained:
  assumes "transfers d \<noteq> None"
  shows "(\<not> transfers_setup d \<longrightarrow>
       timssdr_stop_rx css d w = Inr (TIMSSDR_ERROR_OTHER, d\<lparr>streaming := False\<rparr>, w) \<and>
       timssdr_stop_tx css d w = Inr (TIMSSDR_ERROR_OTHER, d\<lparr>streaming := False\<rparr>, w)) \<and>
    (transfers_setup d \<and> 0 \<le> active_transfers d \<and>
     transport_drains (flush_transfer d \<noteq> None) (active_transfers d) css \<longrightarrow>
       (\<exists>d' w'. timssdr_stop_rx css d w = Inr (TIMSSDR_SUCCESS, d', w') \<and>
          timssdr_stop_tx css d w = Inr (TIMSSDR_SUCCESS, d', w') \<and>
          active_transfers d' = 0 \<and> \<not> transfers_setup d' \<and> \<not> flush d' \<and> \<not> streaming d'))"
  using cancel_transfers_result [OF assms, of css w]
  by (simp add: timssdr_stop_rx_def timssdr_stop_tx_def)

lemma stop_postcondition_drained_example:
  "timssdr_stop_rx [] opened_device initial_world =
     Inr (TIMSSDR_ERROR_OTHER, opened_device, initial_world) \<and>
   (\<exists>d' w'.
      timssdr_stop_tx
        [[Transfer_completion 0 3 0], [], [Transfer_completion 1 0 512, Flush_completion 3 0]]
        tx_session initial_world = Inr (TIMSSDR_SUCCESS, d', w') \<and>
      active_transfers d' = 0 \<and> \<not> transfers_setup d' \<and> \<not> flush d' \<and> \<not> streaming d')"
  using stop_postcondition_drained [of opened_device "[]" initial_world]
    stop_postcondition_drained [of tx_session
      "[[Transfer_completion 0 3 0], [], [Transfer_completion 1 0 512, Flush_completion 3 0]]"
      initial_world]
  by (auto simp add: opened_device_def tx_session_def)

text \<open>The same end is reached without a rejected start: a \<open>timssdr_start_tx\<close> whose first
  submission fails returns TIMSSDR_ERROR_LIBUSB and leaves \<open>flush\<close> set, the following
  \<open>timssdr_start_rx\<close> succeeds with \<open>flush\<close> still set, and after the same completions
  \<open>timssdr_stop_rx\<close> returns TIMSSDR_SUCCESS with \<open>active_transfers = - 3\<close>.\<close>

lemma stop_after_failed_start:
  "\<exists>d1 w1 d2 w2 d3 w3 d4 w4 d5 w5.
     timssdr_enable_tx_flush opened_device None 0 failing_submit_world =
       (TIMSSDR_SUCCESS, d1, w1) \<and>
     timssdr_start_tx d1 (Some accept_block) 7 0 w1 = Inr (TIMSSDR_ERROR_LIBUSB, d2, w2) \<and>
     \<not> transfers_setup d2 \<and> flush d2 \<and> active_transfers d2 = 0 \<and>
     timssdr_start_rx d2 (Some refuse_block) 5 0 w2 = Inr (TIMSSDR_SUCCESS, d3, w3) \<and>
     active_transfers d3 = 4 \<and> flush d3 \<and>
     handle_completions
       [Transfer_completion 0 0 262144, Flush_completion 0 32768,
        Transfer_completion 1 0 262144, Transfer_completion 2 0 262144,
        Transfer_completion 3 0 262144] d3 w3 = Inr (d4, w4) \<and>
     active_transfers d4 = - 3 \<and> transfers_setup d4 \<and>
     timssdr_stop_rx [] d4 w4 = Inr (TIMSSDR_SUCCESS, d5, w5) \<and>
     active_transfers d5 = - 3 \<and> \<not> transfers_setup d5 \<and> \<not> flush d5"
  by (simp add: timssdr_enable_tx_flush_def libusb_alloc_transfer_def calloc_def
        timssdr_start_rx_def timssdr_start_tx_def prepare_setup_transfers_def
        prepare_transfers_def setup_streaming_def handle_completion_def
        timssdr_libusb_transfer_callback_def timssdr_libusb_flush_callback_def
        submit_flush_def timssdr_stop_rx_def cancel_transfers_def transfers_check_setup_def
        failing_submit_world_def opened_device_def initial_world_def refuse_block_def
        accept_block_def idle_transfer_def TRANSFER_COUNT_Suc Let_def case_prod_beta
        finish_transfer_def libusb_submit_transfer_def external_call_def emit_def
        pad_transfer_def pad_buffer.simps TRANSFER_BUFFER_SIZE_def
        libusb_codes error_codes)

text \<open>C5, the code at the failing input, a run of the public functions on an open
  device: \<open>timssdr_enable_tx_flush\<close>, then \<open>timssdr_start_rx\<close> with a callback that
  refuses its first block (four transfers outstanding, \<open>flush\<close> false), then a
  \<open>timssdr_start_tx\<close> that is rejected with TIMSSDR_ERROR_BUSY and has set \<open>flush\<close>.
  Slot 0 completes, the callback refuses and the handler submits the flush transfer;
  the flush transfer completes and its handler sets \<open>active_transfers\<close> to 0 while
  three transfers of the ring are outstanding; they complete and the handler
  decrements the counter to \<open>- 3\<close>. \<open>timssdr_stop_rx\<close> then finds \<open>transfers_setup\<close>
  true, does not wait, and returns TIMSSDR_SUCCESS with \<open>active_transfers = - 3\<close>,
  not 0; \<open>transfers_setup\<close> and \<open>flush\<close> are false.\<close>

theorem stop_leaves_negative_counter:
  "\<exists>d1 w1 d2 w2 d3 w3 d4 w4 d5 w5.
     timssdr_enable_tx_flush opened_device None 0 allocating_world =
       (TIMSSDR_SUCCESS, d1, w1) \<and>
     timssdr_start_rx d1 (Some refuse_block) 5 0 w1 = Inr (TIMSSDR_SUCCESS, d2, w2) \<and>
     active_transfers d2 = 4 \<and> \<not> flush d2 \<and>
     timssdr_start_tx d2 (Some fill_510) 7 0 w2 = Inr (TIMSSDR_ERROR_BUSY, d3, w3) \<and>
     flush d3 \<and>
     handle_completions
       [Transfer_completion 0 0 262144, Flush_completion 0 32768,
        Transfer_completion 1 0 262144, Transfer_completion 2 0 262144,
        Transfer_completion 3 0 262144] d3 w3 = Inr (d4, w4) \<and>
     active_transfers d4 = - 3 \<and> transfers_setup d4 \<and>
     timssdr_stop_rx [] d4 w4 = Inr (TIMSSDR_SUCCESS, d5, w5) \<and>
     active_transfers d5 = - 3 \<and> \<not> transfers_setup d5 \<and> \<not> flush d5"
  by (simp add: timssdr_enable_tx_flush_def libusb_alloc_transfer_def calloc_def
        timssdr_start_rx_def timssdr_start_tx_def prepare_setup_transfers_def
        prepare_transfers_def setup_streaming_def handle_completion_def
        timssdr_libusb_transfer_callback_def timssdr_libusb_flush_callback_def
        submit_flush_def timssdr_stop_rx_def cancel_transfers_def transfers_check_setup_def
        allocating_world_def opened_device_def initial_world_def refuse_block_def
        fill_510_def idle_transfer_def TRANSFER_COUNT_Suc Let_def case_prod_beta
        finish_transfer_def libusb_submit_transfer_def external_call_def emit_def
        libusb_codes error_codes)

subsection \<open>A second start on a busy device\<close>

lemma busy_start:
  assumes "transfers_setup d"
  shows "timssdr_start_rx d cb c e w = Inr (TIMSSDR_ERROR_BUSY, d\<lparr>rx_ctx := c\<rparr>, w) \<and>
    timssdr_start_tx d cb c e w =
      Inr (TIMSSDR_ERROR_BUSY,
           (if flush_transfer d \<noteq> None then d\<lparr>flush := True\<rparr> else d)\<lparr>tx_ctx := c\<rparr>, w)"
  using assms
  by (simp add: timssdr_start_rx_def timssdr_start_tx_def prepare_setup_transfers_def Let_def)

text \<open>C6, the code at the failing input: an RX session is running (\<open>flush\<close> is false)
  on a device that has a flush transfer, and \<open>timssdr_start_tx\<close> is called. The call
  returns TIMSSDR_ERROR_BUSY, installs no callback and submits nothing, but it has set
  \<open>flush\<close> and overwritten \<open>tx_ctx\<close> before the test of \<open>transfers_setup\<close>. The
  running session is not left as it was: at its next completion, where its callback
  asks to stop, the handler submitted nothing before the rejected call and submits the
  flush transfer, a TX transfer, after it.\<close>

theorem second_start_changes_session:
  "timssdr_start_tx rx_session (Some fill_510) 7 0 initial_world =
     Inr (TIMSSDR_ERROR_BUSY, rx_session\<lparr>flush := True, tx_ctx := 7\<rparr>, initial_world) \<and>
   \<not> flush rx_session \<and> tx_ctx rx_session = 0 \<and>
   (\<exists>t' d' w'.
      timssdr_libusb_transfer_callback
        (idle_transfer\<lparr>xfer_endpoint := RX_ENDPOINT_ADDRESS,
           xfer_callback := Some Transfer_callback, xfer_actual_length := 262144\<rparr>)
        rx_session initial_world = Inr (t', d', w') \<and>
      submitted (new_events initial_world w') = []) \<and>
   (\<exists>t' d' w'.
      timssdr_libusb_transfer_callback
        (idle_transfer\<lparr>xfer_endpoint := RX_ENDPOINT_ADDRESS,
           xfer_callback := Some Transfer_callback, xfer_actual_length := 262144\<rparr>)
        (rx_session\<lparr>flush := True, tx_ctx := 7\<rparr>) initial_world = Inr (t', d', w') \<and>
      submitted (new_events initial_world w') = [idle_flush_transfer])"
  by (simp add: busy_start rx_session_def timssdr_libusb_transfer_callback_def
        submit_flush_def opened_device_def initial_world_def refuse_block_def idle_transfer_def
        Let_def case_prod_beta prod_eq_iff new_events_def libusb_codes error_codes)

subsection \<open>A TX start whose callback refuses the first buffer\<close>

text \<open>As soon as one slot is ready, the submit loop assigns \<open>error\<close> before anything
  reads it, so what the local held before has no effect.\<close>

lemma submit_transfers_error_unread:
  "submit_transfers (Suc n) i ep cb ts a error w = submit_transfers (Suc n) i ep cb ts a 0 w"
  by (simp add: Let_def case_prod_beta)

lemma prepare_transfers_error_unread:
  assumes "transfers d = Some ts"
    and "(if ep = TX_ENDPOINT_ADDRESS then fill_transfers TRANSFER_COUNT 0 d ts w
          else Inr (ts, w, TRANSFER_COUNT)) = Inr (ts1, w1, Suc k)"
  shows "prepare_transfers d ep cb error w = prepare_transfers d ep cb 0 w"
  using assms
  by (simp add: prepare_transfers_def submit_transfers_error_unread [of _ _ _ _ _ _ error]
      del: submit_transfers.simps fill_transfers.simps)

text \<open>Whenever \<open>prepare_transfers\<close> returns TIMSSDR_SUCCESS, \<open>transfers_setup\<close> is set,
  \<open>streaming\<close> says whether all slots were ready, and if \<open>streaming\<close> is false while
  \<open>flush\<close> is set, the submission of the flush transfer is the last event before the
  lock is released.\<close>

lemma fill_transfers_extends:
  "fill_transfers n i d ts w = Inr (ts', w', ready) \<Longrightarrow> \<exists>es. trace w' = trace w @ es"
proof (induction n arbitrary: i ts w)
  case 0
  then show ?case by simp
next
  case (Suc n)
  from Suc.prems obtain cb where cb: "callback d = Some cb"
    by (cases "callback d") simp_all
  let ?tr = "\<lparr>buffer = xfer_buffer (ts i), buffer_length = TRANSFER_BUFFER_SIZE,
               valid_length = TRANSFER_BUFFER_SIZE, transfer_rx_ctx = rx_ctx d,
               transfer_tx_ctx = tx_ctx d\<rparr>"
  let ?r = "fst (cb ?tr (app w))"
  let ?tr' = "fst (snd (cb ?tr (app w)))"
  let ?w1 = "(emit (Call_callback ?tr ?r ?tr') w)\<lparr>app := snd (snd (cb ?tr (app w)))\<rparr>"
  show ?case
  proof (cases "?r = 0 \<and> valid_length ?tr' > 0")
    case True
    with Suc.prems cb obtain ts1 where
      "fill_transfers n (Suc i) d ts1 ?w1 = Inr (ts', w', ready)"
      by (simp add: Let_def case_prod_beta)
    from Suc.IH [OF this] show ?thesis by auto
  next
    case False
    with Suc.prems cb have "w' = ?w1"
      by (auto simp add: Let_def case_prod_beta)
    then show ?thesis by simp
  qed
qed

lemma submit_transfers_extends:
  "submit_transfers n i ep cb ts a e w = Inr (ts', a', e', w') \<Longrightarrow>
   \<exists>es. trace w' = trace w @ es"
proof (induction n arbitrary: i ts a e w)
  case 0
  then show ?case by simp
next
  case (Suc n)
  let ?t0 = "(ts i)\<lparr>xfer_endpoint := ep, xfer_callback := Some cb\<rparr>"
  from Suc.prems obtain t where
    t: "(if ep = TX_ENDPOINT_ADDRESS then pad_transfer ?t0 else Inr ?t0) = Inr t"
    by (cases "if ep = TX_ENDPOINT_ADDRESS then pad_transfer ?t0 else Inr ?t0")
       (simp_all add: Let_def)
  let ?w1 = "snd (libusb_submit_transfer t w)"
  show ?case
  proof (cases "fst (libusb_submit_transfer t w) = 0")
    case True
    with Suc.prems t obtain ts1 a1 e1 where
      "submit_transfers n (Suc i) ep cb ts1 a1 e1 ?w1 = Inr (ts', a', e', w')"
      by (simp add: Let_def case_prod_beta del: libusb_submit_transfer_simps(1))
    from Suc.IH [OF this] show ?thesis by auto
  next
    case False
    with Suc.prems t have "w' = ?w1\<lparr>last_libusb_error := fst (libusb_submit_transfer t w)\<rparr>"
      by (auto simp add: Let_def case_prod_beta simp del: libusb_submit_transfer_simps(1))
    then show ?thesis by simp
  qed
qed

lemma prepare_transfers_success:
  assumes "prepare_transfers d ep cb error w = Inr (TIMSSDR_SUCCESS, d', w')"
  shows "\<exists>ts ts1 w1 ready.
      transfers d = Some ts \<and>
      (if ep = TX_ENDPOINT_ADDRESS then fill_transfers TRANSFER_COUNT 0 d ts w
       else Inr (ts, w, TRANSFER_COUNT)) = Inr (ts1, w1, ready) \<and>
      transfers_setup d' \<and>
      streaming d' = (ready = TRANSFER_COUNT) \<and>
      flush d' = flush d \<and>
      (\<not> streaming d' \<and> flush d \<longrightarrow>
         (\<exists>ft es. flush_transfer d = Some ft \<and>
            new_events w w' = es @ [Libusb_submit_transfer ft, Pthread_mutex_unlock]))"
proof -
  from assms obtain ts where ts: "transfers d = Some ts"
    by (cases "transfers d") (simp_all add: prepare_transfers_def error_codes)
  let ?fill = "if ep = TX_ENDPOINT_ADDRESS then fill_transfers TRANSFER_COUNT 0 d ts w
               else Inr (ts, w, TRANSFER_COUNT)"
  from assms ts obtain ts1 w1 ready where fill: "?fill = Inr (ts1, w1, ready)"
    by (cases ?fill) (auto simp add: prepare_transfers_def simp del: fill_transfers.simps)
  have e1: "\<exists>es. trace w1 = trace w @ es"
  proof (cases "ep = TX_ENDPOINT_ADDRESS")
    case True
    with fill show ?thesis by (auto dest: fill_transfers_extends)
  next
    case False
    with fill show ?thesis by simp
  qed
  let ?sub = "submit_transfers ready 0 ep cb ts1 (active_transfers d) error
                (emit Pthread_mutex_lock w1)"
  from assms ts fill obtain ts2 a2 e2 w2 where sub: "?sub = Inr (ts2, a2, e2, w2)"
    by (cases ?sub)
       (auto simp add: prepare_transfers_def
          simp del: fill_transfers.simps submit_transfers.simps)
  from submit_transfers_extends [OF sub] e1
  have e2: "\<exists>es. trace w2 = trace w @ es" by auto
  let ?d2 = "d\<lparr>transfers := Some ts2, active_transfers := a2\<rparr>"
  from assms ts fill sub have rest:
    "(case (if e2 = 0 then setup_streaming ready e2 ?d2 w2 else Inr (?d2, e2, w2)) of
        Inl f \<Rightarrow> Inl f
      | Inr (device, error, w) \<Rightarrow>
          Inr (if error = 0 then TIMSSDR_SUCCESS else TIMSSDR_ERROR_LIBUSB,
               device, emit Pthread_mutex_unlock w)) = Inr (TIMSSDR_SUCCESS, d', w')"
    by (simp add: prepare_transfers_def Let_def
          del: fill_transfers.simps submit_transfers.simps)
  have z: "e2 = 0"
    using rest by (cases "e2 = 0") (simp_all add: error_codes)
  from rest z obtain d3 e3 w3 where
    ss: "setup_streaming ready 0 ?d2 w2 = Inr (d3, e3, w3)"
    and fin: "e3 = 0" "d' = d3" "w' = emit Pthread_mutex_unlock w3"
    by (cases "setup_streaming ready 0 ?d2 w2")
       (auto simp add: error_codes split: if_splits)
  have props: "transfers_setup d3 \<and> streaming d3 = (ready = TRANSFER_COUNT) \<and>
      flush d3 = flush d \<and>
      (\<not> streaming d3 \<and> flush d \<longrightarrow>
         (\<exists>ft. flush_transfer d = Some ft \<and>
            trace w3 = trace w2 @ [Libusb_submit_transfer ft]))"
    using ss
    by (auto simp add: setup_streaming_def Let_def case_prod_beta
        split: if_splits option.splits)
  from e2 obtain es where es: "trace w2 = trace w @ es" by auto
  have "\<not> streaming d3 \<and> flush d \<longrightarrow>
         (\<exists>ft es. flush_transfer d = Some ft \<and>
            new_events w w' = es @ [Libusb_submit_transfer ft, Pthread_mutex_unlock])"
    using props es fin by (auto simp add: new_events_def)
  with props ts fill fin show ?thesis by blast
qed

text \<open>C4, the code at the failing input: \<open>timssdr_start_tx\<close> on a device with a flush
  transfer, with a callback that refuses the first buffer, so that \<open>ready_transfers\<close>
  is 0 and the submit loop never assigns the local \<open>error\<close>. No transfer is submitted
  and no submit error occurs (\<open>last_libusb_error\<close> stays 0). When \<open>error\<close> happens to
  hold 1, the call returns TIMSSDR_ERROR_LIBUSB, leaves \<open>transfers_setup\<close> false and
  does not submit the flush transfer although \<open>flush\<close> is set and \<open>streaming\<close> is
  false. When it happens to hold 0, the call does what the claim says.\<close>

theorem refused_first_buffer:
  "(\<exists>d' w'.
      timssdr_start_tx tx_flush_device (Some refuse_block) 0 1 initial_world =
        Inr (TIMSSDR_ERROR_LIBUSB, d', w') \<and>
      \<not> transfers_setup d' \<and> flush d' \<and> \<not> streaming d' \<and>
      length (callback_calls (new_events initial_world w')) = 1 \<and>
      accepted_fills (new_events initial_world w') = [] \<and>
      submitted (new_events initial_world w') = [] \<and>
      last_libusb_error w' = 0) \<and>
   (\<exists>d' w'.
      timssdr_start_tx tx_flush_device (Some refuse_block) 0 0 initial_world =
        Inr (TIMSSDR_SUCCESS, d', w') \<and>
      transfers_setup d' \<and> flush d' \<and> \<not> streaming d' \<and>
      submitted (new_events initial_world w') = [idle_flush_transfer])"
  by (simp add: timssdr_start_tx_def prepare_setup_transfers_def prepare_transfers_def
        tx_flush_device_def opened_device_def initial_world_def refuse_block_def
        idle_transfer_def TRANSFER_COUNT_Suc Let_def case_prod_beta
        setup_streaming_def new_events_def libusb_codes error_codes)

subsection \<open>The counter of open devices\<close>

lemma fold_emit_counter [simp]:
  "open_devices (fold (\<lambda>i. emit (f i)) ks w) = open_devices w"
  by (induction ks arbitrary: w) simp_all

lemma finish_transfer_counter [simp]:
  "open_devices (snd (finish_transfer b d w)) = open_devices w"
  by (simp add: finish_transfer_def Let_def)

lemma free_transfers_counter [simp]:
  "open_devices (snd (free_transfers d w)) = open_devices w"
  by (simp add: free_transfers_def Let_def case_prod_beta split: option.splits)

lemma flush_callback_counter [simp]:
  "open_devices (snd (timssdr_libusb_flush_callback t d w)) = open_devices w"
  by (simp add: timssdr_libusb_flush_callback_def Let_def split: option.splits)

lemma transfer_callback_counter:
  "timssdr_libusb_transfer_callback t d w = Inr (t', d', w') \<Longrightarrow>
   open_devices w' = open_devices w"
  by (auto simp add: timssdr_libusb_transfer_callback_def submit_flush_def Let_def
        case_prod_beta prod_eq_iff
      split: option.splits if_splits sum.splits)

lemma handle_completion_counter:
  "handle_completion c d w = Inr (d', w') \<Longrightarrow> open_devices w' = open_devices w"
  by (auto simp add: handle_completion_def Let_def case_prod_beta prod_eq_iff
      split: completion.splits option.splits sum.splits dest: transfer_callback_counter)

lemma handle_completions_counter:
  "handle_completions cs d w = Inr (d', w') \<Longrightarrow> open_devices w' = open_devices w"
proof (induction cs arbitrary: d w)
  case Nil
  then show ?case by simp
next
  case (Cons c cs)
  then show ?case
    by (auto split: sum.splits dest!: handle_completion_counter)
qed

lemma wait_all_finished_counter:
  "wait_all_finished css d w = Inr (d', w') \<Longrightarrow> open_devices w' = open_devices w"
proof (induction css arbitrary: d w)
  case Nil
  then show ?case by (simp split: if_splits)
next
  case (Cons cs css)
  then show ?case
    by (auto split: sum.splits if_splits dest!: handle_completions_counter)
qed

lemma cancel_transfers_counter:
  "cancel_transfers css d w = Inr (r, d', w') \<Longrightarrow> open_devices w' = open_devices w"
  by (auto simp add: cancel_transfers_def Let_def
      split: sum.splits if_splits option.splits dest!: wait_all_finished_counter)

lemma kill_transfer_thread_counter:
  "kill_transfer_thread css d w = Inr (r, d', w') \<Longrightarrow> open_devices w' = open_devices w"
  by (auto simp add: kill_transfer_thread_def Let_def case_prod_beta
      split: sum.splits if_splits dest!: cancel_transfers_counter)

lemma timssdr_close_counter:
  "timssdr_close css device w = Inr (r, w') \<Longrightarrow> open_devices w' = open_devices w - 1"
  by (auto simp add: timssdr_close_def Let_def case_prod_beta
      split: option.splits sum.splits dest!: kill_transfer_thread_counter)

lemma detach_interfaces_counter [simp]:
  "open_devices (snd (detach_interfaces n w)) = open_devices w"
  by (induction n arbitrary: w) (simp_all add: Let_def case_prod_beta)

lemma detach_kernel_drivers_counter [simp]:
  "open_devices (snd (detach_kernel_drivers w)) = open_devices w"
  by (simp add: detach_kernel_drivers_def Let_def case_prod_beta)

lemma set_timssdr_configuration_counter [simp]:
  "open_devices (snd (set_timssdr_configuration config w)) = open_devices w"
  by (simp add: set_timssdr_configuration_def Let_def case_prod_beta split: option.splits)

lemma libusb_alloc_transfer_counter [simp]:
  "open_devices (snd (libusb_alloc_transfer w)) = open_devices w"
  by (simp add: libusb_alloc_transfer_def Let_def case_prod_beta emit_def)

lemma allocate_slots_counter [simp]:
  "open_devices (snd (snd (allocate_slots n i ts w))) = open_devices w"
proof (induction n arbitrary: i ts w)
  case 0
  show ?case by simp
next
  case (Suc n)
  show ?case
  proof (cases "libusb_alloc_transfer w")
    case (Pair r w1)
    have w1: "open_devices w1 = open_devices w"
      using libusb_alloc_transfer_counter [of w] Pair by simp
    show ?thesis using Pair w1 Suc.IH by (cases r) simp_all
  qed
qed

lemma allocate_transfers_counter [simp]:
  "open_devices (snd (snd (allocate_transfers device w))) = open_devices w"
  by (simp add: allocate_transfers_def Let_def case_prod_beta)

lemma create_transfer_thread_counter [simp]:
  "open_devices (snd (snd (create_transfer_thread device w))) = open_devices w"
  by (simp add: create_transfer_thread_def Let_def case_prod_beta)

lemma timssdr_open_setup_counter:
  "open_devices (snd (snd (timssdr_open_setup w))) =
     (if fst (timssdr_open_setup w) = TIMSSDR_SUCCESS then open_devices w + 1
      else open_devices w)"
  "(fst (snd (timssdr_open_setup w)) \<noteq> None) = (fst (timssdr_open_setup w) = TIMSSDR_SUCCESS)"
  by (simp_all add: timssdr_open_setup_def Let_def case_prod_beta error_codes libusb_codes
      del: not_None_eq)

lemma timssdr_open_counter:
  "open_devices (snd (snd (timssdr_open device w))) =
     (if fst (timssdr_open device w) = TIMSSDR_SUCCESS then open_devices w + 1
      else open_devices w)"
  "(fst (snd (timssdr_open device w)) \<noteq> None) = (fst (timssdr_open device w) = TIMSSDR_SUCCESS)"
  by (simp_all add: timssdr_open_def Let_def case_prod_beta timssdr_open_setup_counter
      error_codes del: not_None_eq)

text \<open>In \<open>opening_world\<close>, \<open>timssdr_open\<close> returns a device whose four transfers are idle
  and which agrees with \<open>opened_device\<close> on every other field; one device is open.\<close>

lemma timssdr_open_example:
  "\<exists>d w'. timssdr_open True opening_world = (TIMSSDR_SUCCESS, Some d, w') \<and>
     open_devices w' = 1 \<and>
     d\<lparr>transfers := transfers opened_device\<rparr> = opened_device \<and>
     (\<exists>ts. transfers d = Some ts \<and> (\<forall>i < TRANSFER_COUNT. ts i = idle_transfer))"
  by (simp add: timssdr_open_def timssdr_open_setup_def set_timssdr_configuration_def
     detach_kernel_drivers_def allocate_transfers_def create_transfer_thread_def
     libusb_alloc_transfer_def
     opening_world_def initial_world_def external_call_def Let_def case_prod_beta
     USB_CONFIG_STANDARD_def TRANSFER_COUNT_Suc opened_device_def idle_transfer_def emit_def
     error_codes libusb_codes)

lemma timssdr_exit_result:
  "fst (timssdr_exit w) =
     (if open_devices w = 0 then TIMSSDR_SUCCESS else TIMSSDR_ERROR_NOT_LAST_DEVICE) \<and>
   open_devices (snd (timssdr_exit w)) = open_devices w"
  by (simp add: timssdr_exit_def)

text \<open>C1, the code at the failing input: \<open>timssdr_close\<close> with a NULL device returns
  TIMSSDR_SUCCESS and decrements the counter. With no device open the counter wraps
  from 0 to 65535, and \<open>timssdr_exit\<close>, which succeeded before, then returns
  TIMSSDR_ERROR_NOT_LAST_DEVICE; with one device open the counter drops to 0, and
  \<open>timssdr_exit\<close>, which refused before, succeeds while the device is still open.\<close>

theorem close_null_decrements:
  "timssdr_close [] None initial_world =
     Inr (TIMSSDR_SUCCESS, initial_world\<lparr>open_devices := 65535\<rparr>) \<and>
   open_devices initial_world = 0 \<and>
   fst (timssdr_exit initial_world) = TIMSSDR_SUCCESS \<and>
   fst (timssdr_exit (initial_world\<lparr>open_devices := 65535\<rparr>)) =
     TIMSSDR_ERROR_NOT_LAST_DEVICE \<and>
   timssdr_close [] None (initial_world\<lparr>open_devices := 1\<rparr>) =
     Inr (TIMSSDR_SUCCESS, initial_world\<lparr>open_devices := 0\<rparr>) \<and>
   fst (timssdr_exit (initial_world\<lparr>open_devices := 1\<rparr>)) = TIMSSDR_ERROR_NOT_LAST_DEVICE \<and>
   fst (timssdr_exit (initial_world\<lparr>open_devices := 0\<rparr>)) = TIMSSDR_SUCCESS"
  by (simp add: timssdr_close_def timssdr_exit_def initial_world_def Let_def error_codes)

subsection \<open>Enabling the TX flush\<close>

lemma enable_tx_flush_again:
  assumes "flush_transfer d = Some ft"
  shows "enable_tx_flush_calls args d w =
     (replicate (length args) TIMSSDR_SUCCESS,
      (if args = [] then d
       else d\<lparr>flush_callback := fst (last args), flush_ctx := snd (last args)\<rparr>),
      w)"
  using assms
proof (induction args arbitrary: d)
  case Nil
  then show ?case by simp
next
  case (Cons a args)
  obtain cb c where a: "a = (cb, c)"
    by (cases a)
  let ?d = "d\<lparr>flush_callback := cb, flush_ctx := c\<rparr>"
  have "timssdr_enable_tx_flush d cb c w = (TIMSSDR_SUCCESS, ?d, w)"
    using Cons.prems by (simp add: timssdr_enable_tx_flush_def Let_def)
  moreover have "flush_transfer ?d = Some ft"
    using Cons.prems by simp
  note Cons.IH [OF this]
  ultimately show ?case
    using a by simp
qed

lemma enable_tx_flush_first:
  assumes "flush_transfer d = None"
  shows "timssdr_enable_tx_flush d cb c w =
     (if results w (calls w) = 0
      then (TIMSSDR_ERROR_LIBUSB, d\<lparr>flush_callback := cb, flush_ctx := c\<rparr>,
            (emit Libusb_alloc_transfer w)\<lparr>calls := Suc (calls w)\<rparr>)
      else (TIMSSDR_SUCCESS,
            d\<lparr>flush_callback := cb, flush_ctx := c,
              flush_transfer := Some (idle_flush_transfer
                \<lparr>xfer_buffer := if results w (Suc (calls w)) = 0 then None
                                 else Some (\<lambda>i. 0)\<rparr>)\<rparr>,
            (emit Libusb_alloc_transfer w)\<lparr>calls := Suc (Suc (calls w))\<rparr>))"
  using assms
  by (simp add: timssdr_enable_tx_flush_def libusb_alloc_transfer_def calloc_def
        external_call_def emit_def idle_flush_transfer_def Let_def)

text \<open>C9, as amended: for every \<open>K \<ge> 1\<close>, \<open>K\<close> calls of \<open>timssdr_enable_tx_flush\<close> on
  an open device that has no flush transfer yet, where \<^verbatim>\<open>libusb_alloc_transfer\<close> and
  \<^verbatim>\<open>calloc\<close> return a non-NULL pointer in the first call, allocate exactly one flush
  transfer (DEVICE_BUFFER_SIZE zero bytes on the TX endpoint, with the flush handler);
  every call returns TIMSSDR_SUCCESS and installs the callback and context it is
  given, and the device and the world after the \<open>K\<close>-th call are those after the first
  call with the latest callback and context substituted.\<close>

theorem enable_tx_flush_idempotent:
  assumes fresh: "flush_transfer d = None"
    and alloc: "results w (calls w) \<noteq> 0"
    and buf: "results w (Suc (calls w)) \<noteq> 0"
    and args: "args = (cb, c) # rest"
  shows "enable_tx_flush_calls args d w =
     (replicate (length args) TIMSSDR_SUCCESS,
      (fst (snd (timssdr_enable_tx_flush d cb c w)))
        \<lparr>flush_callback := fst (last args), flush_ctx := snd (last args)\<rparr>,
      snd (snd (timssdr_enable_tx_flush d cb c w))) \<and>
    allocations (new_events w (snd (snd (enable_tx_flush_calls args d w)))) = 1 \<and>
    flush_transfer (fst (snd (enable_tx_flush_calls args d w))) = Some idle_flush_transfer \<and>
    flush_callback (fst (snd (enable_tx_flush_calls args d w))) = fst (last args) \<and>
    flush_ctx (fst (snd (enable_tx_flush_calls args d w))) = snd (last args)"
proof -
  let ?d1 = "d\<lparr>flush_callback := cb, flush_ctx := c,
    flush_transfer := Some idle_flush_transfer\<rparr>"
  let ?w1 = "(emit Libusb_alloc_transfer w)\<lparr>calls := Suc (Suc (calls w))\<rparr>"
  have first: "timssdr_enable_tx_flush d cb c w = (TIMSSDR_SUCCESS, ?d1, ?w1)"
    using alloc buf by (simp add: enable_tx_flush_first [OF fresh] idle_flush_transfer_def)
  have "flush_transfer ?d1 = Some idle_flush_transfer"
    by simp
  note again = enable_tx_flush_again [OF this, of rest ?w1]
  have run: "enable_tx_flush_calls args d w =
     (replicate (length args) TIMSSDR_SUCCESS,
      ?d1\<lparr>flush_callback := fst (last args), flush_ctx := snd (last args)\<rparr>, ?w1)"
    unfolding args using first again by (cases "rest = []") simp_all
  have "new_events w ?w1 = [Libusb_alloc_transfer]"
    by (simp add: new_events_def)
  then show ?thesis
    unfolding run first by (simp add: allocations_def)
qed


theorem enable_tx_flush_idempotent_witness:
  "fst (enable_tx_flush_calls [(None, 1), (None, 2), (None, 3)] opened_device
          (initial_world\<lparr>results := \<lambda>n. 1\<rparr>)) =
     [TIMSSDR_SUCCESS, TIMSSDR_SUCCESS, TIMSSDR_SUCCESS] \<and>
   allocations (new_events (initial_world\<lparr>results := \<lambda>n. 1\<rparr>)
     (snd (snd (enable_tx_flush_calls [(None, 1), (None, 2), (None, 3)] opened_device
                  (initial_world\<lparr>results := \<lambda>n. 1\<rparr>))))) = 1 \<and>
   flush_transfer (fst (snd (enable_tx_flush_calls [(None, 1), (None, 2), (None, 3)]
     opened_device (initial_world\<lparr>results := \<lambda>n. 1\<rparr>)))) = Some idle_flush_transfer \<and>
   flush_ctx (fst (snd (enable_tx_flush_calls [(None, 1), (None, 2), (None, 3)]
     opened_device (initial_world\<lparr>results := \<lambda>n. 1\<rparr>)))) = 3"
proof -
  have "flush_transfer opened_device = None"
    by (simp add: opened_device_def)
  moreover have "results (initial_world\<lparr>results := \<lambda>n. 1\<rparr>)
      (calls (initial_world\<lparr>results := \<lambda>n. 1\<rparr>)) \<noteq> 0"
    "results (initial_world\<lparr>results := \<lambda>n. 1\<rparr>)
      (Suc (calls (initial_world\<lparr>results := \<lambda>n. 1\<rparr>))) \<noteq> 0"
    by simp_all
  ultimately show ?thesis
    using enable_tx_flush_idempotent
      [of opened_device "initial_world\<lparr>results := \<lambda>n. 1\<rparr>"
          "[(None, 1), (None, 2), (None, 3)]" None 1 "[(None, 2), (None, 3)]"]
    by (auto simp del: enable_tx_flush_calls.simps)
qed

text \<open>C9 as stated fails where \<^verbatim>\<open>libusb_alloc_transfer\<close> returns NULL (every call into
  the transport returns 0 in \<open>initial_world\<close>): both of two calls return
  TIMSSDR_ERROR_LIBUSB, each of them calls the allocator, and the device has no flush
  transfer afterwards, while the callback and the context of the last call are
  installed.\<close>

theorem enable_tx_flush_alloc_failure:
  "fst (enable_tx_flush_calls [(None, 1), (None, 2)] opened_device initial_world) =
     [TIMSSDR_ERROR_LIBUSB, TIMSSDR_ERROR_LIBUSB] \<and>
   TIMSSDR_ERROR_LIBUSB \<noteq> TIMSSDR_SUCCESS \<and>
   flush_transfer (fst (snd (enable_tx_flush_calls [(None, 1), (None, 2)] opened_device
     initial_world))) = None \<and>
   flush_ctx (fst (snd (enable_tx_flush_calls [(None, 1), (None, 2)] opened_device
     initial_world))) = 2 \<and>
   allocations (new_events initial_world
     (snd (snd (enable_tx_flush_calls [(None, 1), (None, 2)] opened_device initial_world)))) = 2"
  by (simp add: enable_tx_flush_first opened_device_def initial_world_def Let_def
        allocations_def new_events_def error_codes)

end
